theory Spec2Isabelle
  imports Main "HOL-Library.Sublist"
begin

section \<open>Shared data of the cloud services\<close>

text \<open>
  The cloud side of AugmentOS is TypeScript running on one event loop. Each handler is
  embedded as a function from the state before to the state after. A \<^emph>\<open>UserSession\<close>
  object is a record; everything a handler does to the outside world (webhooks, sockets,
  the display manager, the speech SDK, the user database, other services of the
  repository whose source is not part of this development) is appended to the field
  \<open>effects\<close> as a \<open>call\<close>. An exception is a value \<open>Inl e\<close>; since the session object
  is mutated in place, the state reached when the exception was raised is returned with it.
\<close>

datatype StreamType = TRANSCRIPTION | TRANSLATION

datatype TpaType = SYSTEM_DASHBOARD | BACKGROUND | STANDARD

datatype ReadyState = CONNECTING | OPEN | CLOSING | CLOSED

record LanguageInfo =
  li_type :: StreamType
  transcribeLanguage :: string
  translateLanguage :: "string option"

text \<open>The recognizer object of an ASR stream, with the languages it was configured for.\<close>

datatype Recognizer =
    ConversationTranscriber string
  | TranslationRecognizer string string

text \<open>
  \<open>ASRStreamInstance\<close>: the recognizer and, in place of the closures installed by
  \<open>setupRecognitionHandlersForInstance\<close>, the language information they capture. The
  push stream has no state of its own here; it is named by the subscription key.
\<close>

record ASRStreamInstance =
  recognizer :: Recognizer
  handlerLanguageInfo :: LanguageInfo

record TranscriptSegment =
  resultId :: string
  speakerId :: "string option"
  seg_text :: string
  timestamp :: int
  isFinal :: bool

text \<open>\<open>event.result\<close> of a recognizer callback. An absent or empty text is \<open>[]\<close>.\<close>

record RecognitionResult =
  ev_resultId :: string
  ev_speakerId :: "string option"
  ev_text :: string
  ev_offset :: int
  ev_duration :: int
  ev_translations :: "(string \<times> string) list option"

text \<open>\<open>TranscriptionData | TranslationData\<close>, the payload handed to the broadcast.\<close>

record SpeechData =
  sd_type :: StreamType
  sd_text :: "string option"
  sd_startTime :: int
  sd_endTime :: int
  sd_isFinal :: bool
  sd_speakerId :: "string option"
  sd_duration :: "int option"
  sd_transcribeLanguage :: string
  sd_translateLanguage :: "string option"

record App =
  app_packageName :: string
  publicUrl :: string
  tpaType :: TpaType
  isSystemApp :: bool

datatype WebhookRequestType = SESSION_REQUEST | STOP_REQUEST

text \<open>The body of a webhook request, without its timestamp.\<close>

record WebhookRequest =
  wh_type :: WebhookRequestType
  wh_sessionId :: string
  wh_userId :: string
  wh_reason :: "string option"
  wh_augmentOSWebsocketUrl :: "string option"

record TpaConnectionInit =
  init_packageName :: string
  init_sessionId :: string
  init_apiKey :: string

text \<open>Frames the cloud writes to a socket, with the fields the handlers compute.\<close>

datatype message =
    TpaConnectionAck string "string list"
  | AppStateChange "string list"
  | ConnectionAck string
  | ConnectionError

text \<open>
  A call that leaves the service: into the speech SDK, the app service, the subscription
  service, the session service, the display manager, the user model, the analytics sink,
  or a socket. Sockets are named by numbers. Of the log lines only the two warnings of
  \<open>handleTpaInit\<close> are kept.
\<close>

datatype call =
    CreatePushStream string
  | StartContinuousRecognitionAsync string
  | StartTranscribingAsync string
  | StopContinuousRecognitionAsync string
  | StopTranscribingAsync string
  | RecognizerClose string
  | PushStreamClose string
  | BroadcastTranscriptionResult SpeechData
  | BroadcastToTpa string
  | GetApp string
  | TriggerWebhook string WebhookRequest
  | TriggerStopWebhook string WebhookRequest
  | DisplayHandleAppStart string
  | DisplayHandleAppStop string
  | RemoveSubscriptions string
  | HasMediaSubscriptions
  | SendDebouncedMicrophoneStateChange bool
  | UserFindOrCreateUser
  | UserAddRunningApp string
  | UserRemoveRunningApp string
  | WsClose nat
  | WsSend nat message
  | MarkSessionDisconnected
  | EndSession
  | ValidateApiKey string string string
  | HandleTpaSessionStart string
  | SetCurrentSessionId string
  | GenerateAppStateStatus
  | TransformUserSessionForClient
  | PosthogTrackEvent string
  | LoggerWarn string

datatype error =
    InvalidLanguageSubscription string
  | AppNotFound string
  | Threw call
  | TypeError

text \<open>The callbacks handed to \<open>setTimeout\<close> by the handlers of a session.\<close>

datatype TimerCallback =
    LoadingTimeout string string
  | GraceCheck

text \<open>
  The session object. \<open>readyState\<close> is the state of the sockets the session refers to,
  \<open>timers\<close> the pending \<open>setTimeout\<close> registrations (delay in milliseconds and callback),
  \<open>effects\<close> the calls made so far.
\<close>

record UserSession =
  sessionId :: string
  userId :: string
  websocket :: "nat option"
  activeAppSessions :: "string list"
  loadingApps :: "string set"
  appConnections :: "string \<Rightarrow> nat option"
  isTranscribing :: bool
  transcriptionStreams :: "(string \<times> ASRStreamInstance) list option"
  transcript :: "TranscriptSegment list"
  readyState :: "nat \<Rightarrow> ReadyState"
  timers :: "(nat \<times> TimerCallback) list"
  effects :: "call list"

text \<open>
  What a handler reads from its surroundings while it runs: the answers of the services
  whose source is not part of this development, the process environment, and which of
  the outgoing calls raise. \<open>getLanguageInfo\<close> is the SDK's parser of language stream
  keys, \<open>apps\<close> the app collection behind \<open>appService.getApp\<close>, \<open>systemApps\<close> the package
  names of \<open>Object.values(systemApps)\<close>, \<open>userSettings\<close> the settings that the settings
  block of \<open>handleTpaInit\<close> ends with, \<open>runningApps\<close> the \<open>user.runningApps\<close> of the
  user document. A handler that awaits the same service twice may get two different
  answers: \<open>laterThrows\<close> and \<open>laterApps\<close> are what \<open>throws\<close> and \<open>apps\<close> have become by the
  time \<open>startAppSession\<close> runs its second loop, in which it stops the apps that its first
  loop has selected.
\<close>

record env =
  getLanguageInfo :: "string \<Rightarrow> LanguageInfo option"
  apps :: "string \<Rightarrow> App option"
  throws :: "call \<Rightarrow> bool"
  laterThrows :: "call \<Rightarrow> bool"
  laterApps :: "string \<Rightarrow> App option"
  hasMediaSubscriptions :: bool
  minimalLanguageSubscriptions :: "string list"
  validateApiKey :: "string \<Rightarrow> string \<Rightarrow> string \<Rightarrow> bool"
  handleTpaSessionStart :: "TpaConnectionInit \<Rightarrow> bool"
  systemApps :: "string list"
  dashboardPackageName :: string
  userSettings :: "string \<Rightarrow> string list"
  runningApps :: "string list"
  clientIp :: "nat \<Rightarrow> string"
  CONTAINER_ENVIRONMENT :: "string option"
  CLOUD_HOST_NAME :: "string option"
  PORTER_APP_NAME :: "string option"
  CLOUD_PUBLIC_HOST_NAME :: "string option"

definition later :: "env \<Rightarrow> env" where
  "later env = env\<lparr>throws := laterThrows env, apps := laterApps env\<rparr>"

definition perform :: "call \<Rightarrow> UserSession \<Rightarrow> UserSession" where
  "perform c s = s\<lparr>effects := effects s @ [c]\<rparr>"

text \<open>A call that may raise: it either raises and leaves no trace, or is made.\<close>

definition attempt :: "env \<Rightarrow> call \<Rightarrow> UserSession \<Rightarrow> (error + unit) \<times> UserSession" where
  "attempt env c s = (if throws env c then (Inl (Threw c), s) else (Inr (), perform c s))"

text \<open>Calls in sequence, up to the first one that raises.\<close>

fun attempts :: "env \<Rightarrow> call list \<Rightarrow> UserSession \<Rightarrow> (error + unit) \<times> UserSession" where
  "attempts env [] s = (Inr (), s)"
| "attempts env (c # cs) s =
     (case attempt env c s of
        (Inl e, s') \<Rightarrow> (Inl e, s')
      | (Inr u, s') \<Rightarrow> attempts env cs s')"

section \<open>TranscriptionService (processing/transcription.service.ts)\<close>

text \<open>\<open>String.prototype.includes\<close>.\<close>

fun str_includes :: "string \<Rightarrow> string \<Rightarrow> bool" where
  "str_includes [] sub = (sub = [])"
| "str_includes (c # cs) sub = (prefix sub (c # cs) \<or> str_includes cs sub)"

text \<open>\<open>new Set(xs)\<close>: the elements of \<open>xs\<close> in the order of their first occurrence.\<close>

definition newSet :: "'a list \<Rightarrow> 'a list" where
  "newSet xs = rev (remdups (rev xs))"

text \<open>\<open>Map.prototype.has\<close>, \<open>set\<close> (of a key that \<open>has\<close> has just excluded) and \<open>delete\<close>.\<close>

definition has :: "(string \<times> 'v) list \<Rightarrow> string \<Rightarrow> bool" where
  "has m k = (k \<in> fst ` set m)"

definition streamsOf :: "UserSession \<Rightarrow> (string \<times> ASRStreamInstance) list" where
  "streamsOf s = (case transcriptionStreams s of None \<Rightarrow> [] | Some m \<Rightarrow> m)"

definition isTranslationConfig :: "LanguageInfo \<Rightarrow> bool" where
  "isTranslationConfig languageInfo =
     (li_type languageInfo = TRANSLATION \<and>
      (case translateLanguage languageInfo of None \<Rightarrow> False | Some t \<Rightarrow> t \<noteq> []))"

text \<open>
  \<open>createASRStreamForSubscription\<close> raises on a key that the SDK does not parse, and
  nothing catches what the calls into the speech SDK raise: the push stream is created
  first, then the recognizer is built and started.
\<close>

definition createASRStreamForSubscription ::
  "env \<Rightarrow> string \<Rightarrow> UserSession \<Rightarrow> (error + ASRStreamInstance) \<times> UserSession" where
  "createASRStreamForSubscription env subscription s =
     (case getLanguageInfo env subscription of
        None \<Rightarrow> (Inl (InvalidLanguageSubscription subscription), s)
      | Some languageInfo \<Rightarrow>
          (case attempt env (CreatePushStream subscription) s of
             (Inl e, s1) \<Rightarrow> (Inl e, s1)
           | (Inr u, s1) \<Rightarrow>
               (if isTranslationConfig languageInfo then
                  (case attempt env (StartContinuousRecognitionAsync subscription) s1 of
                     (Inl e, s2) \<Rightarrow> (Inl e, s2)
                   | (Inr u, s2) \<Rightarrow>
                       (Inr \<lparr>recognizer = TranslationRecognizer (transcribeLanguage languageInfo)
                                (case translateLanguage languageInfo of None \<Rightarrow> [] | Some t \<Rightarrow> t),
                             handlerLanguageInfo = languageInfo\<rparr>, s2))
                else
                  (case attempt env (StartTranscribingAsync subscription) s1 of
                     (Inl e, s2) \<Rightarrow> (Inl e, s2)
                   | (Inr u, s2) \<Rightarrow>
                       (Inr \<lparr>recognizer = ConversationTranscriber (transcribeLanguage languageInfo),
                             handlerLanguageInfo = languageInfo\<rparr>, s2)))))"

text \<open>
  The first statement in the outer \<open>try\<close> of \<open>stopIndividualTranscriptionStream\<close>. The
  key alone selects the method (\<open>StreamType.TRANSLATION\<close> is the string \<open>translation\<close>);
  the casts do nothing at run time, so on a recognizer of the other class the method is
  undefined and the call is a \<open>TypeError\<close>: a \<open>TranslationRecognizer\<close> has
  \<open>stopContinuousRecognitionAsync\<close>, a \<open>ConversationTranscriber\<close> has
  \<open>stopTranscribingAsync\<close>.
\<close>

definition stopRecognizer ::
  "env \<Rightarrow> string \<Rightarrow> Recognizer \<Rightarrow> UserSession \<Rightarrow> (error + unit) \<times> UserSession" where
  "stopRecognizer env subscription r s =
     (if str_includes subscription ''translation'' then
        (case r of
           TranslationRecognizer a b \<Rightarrow> attempt env (StopContinuousRecognitionAsync subscription) s
         | ConversationTranscriber a \<Rightarrow> (Inl TypeError, s))
      else
        (case r of
           ConversationTranscriber a \<Rightarrow> attempt env (StopTranscribingAsync subscription) s
         | TranslationRecognizer a b \<Rightarrow> (Inl TypeError, s)))"

text \<open>
  \<open>stopIndividualTranscriptionStream\<close> always returns. \<open>recognizer.close()\<close> has a \<open>try\<close>
  of its own, but inside the \<open>try\<close> of the stop call: when the stop call raises, the outer
  \<open>catch\<close> logs and the recognizer is not closed. Closing the push stream comes after
  both, in a third \<open>try\<close>. Every stream in the map has a recognizer and a push stream,
  so the two \<open>if\<close>s are taken.
\<close>

definition stopIndividualTranscriptionStream ::
  "env \<Rightarrow> ASRStreamInstance \<Rightarrow> string \<Rightarrow> UserSession \<Rightarrow> UserSession" where
  "stopIndividualTranscriptionStream env streamInstance subscription s =
     (let s1 = (case stopRecognizer env subscription (recognizer streamInstance) s of
                  (Inl e, s') \<Rightarrow> s'
                | (Inr u, s') \<Rightarrow> snd (attempt env (RecognizerClose subscription) s'))
      in snd (attempt env (PushStreamClose subscription) s1))"

text \<open>The first \<open>forEach\<close> of \<open>updateTranscriptionStreams\<close>, over the desired set.\<close>

fun createNewStreams ::
  "env \<Rightarrow> string list \<Rightarrow> UserSession \<Rightarrow> (error + unit) \<times> UserSession" where
  "createNewStreams env [] s = (Inr (), s)"
| "createNewStreams env (subscription # rest) s =
     (if \<not> has (streamsOf s) subscription then
        (case createASRStreamForSubscription env subscription s of
           (Inl e, s') \<Rightarrow> (Inl e, s')
         | (Inr newStream, s') \<Rightarrow>
             createNewStreams env rest
               (s'\<lparr>transcriptionStreams := Some (streamsOf s' @ [(subscription, newStream)])\<rparr>))
      else createNewStreams env rest s)"

text \<open>
  The second \<open>forEach\<close>, over the entries of the map. Deleting the entry being visited
  does not disturb the iteration of a JavaScript \<open>Map\<close>; \<open>todo\<close> is what is left to visit.
\<close>

fun stopUndesiredStreams ::
  "env \<Rightarrow> string list \<Rightarrow> (string \<times> ASRStreamInstance) list \<Rightarrow> UserSession \<Rightarrow> UserSession" where
  "stopUndesiredStreams env desiredSet [] s = s"
| "stopUndesiredStreams env desiredSet ((key, streamInstance) # todo) s =
     (if key \<notin> set desiredSet then
        stopUndesiredStreams env desiredSet todo
          ((stopIndividualTranscriptionStream env streamInstance key s)
             \<lparr>transcriptionStreams := Some (filter (\<lambda>kv. fst kv \<noteq> key) (streamsOf s))\<rparr>)
      else stopUndesiredStreams env desiredSet todo s)"

definition updateTranscriptionStreams ::
  "env \<Rightarrow> string list \<Rightarrow> UserSession \<Rightarrow> (error + unit) \<times> UserSession" where
  "updateTranscriptionStreams env desiredSubscriptions s =
     (let s0 = (case transcriptionStreams s of
                  None \<Rightarrow> s\<lparr>transcriptionStreams := Some []\<rparr> | Some m \<Rightarrow> s);
          desiredSet = newSet desiredSubscriptions
      in case createNewStreams env desiredSet s0 of
           (Inl e, s1) \<Rightarrow> (Inl e, s1)
         | (Inr u, s1) \<Rightarrow> (Inr (), stopUndesiredStreams env desiredSet (streamsOf s1) s1))"


text \<open>
  The recognizer callbacks. \<open>sessionStartTime\<close> of the service is \<open>0\<close> and never
  assigned. \<open>broadcastTranscriptionResult\<close> catches whatever its body raises; command
  matching and the fan-out behind it are one call here. \<open>currentTime\<close> is the reading of
  \<open>new Date()\<close> in milliseconds.
\<close>

definition sessionStartTime :: int where
  "sessionStartTime = 0"

definition calculateRelativeTime :: "int \<Rightarrow> int" where
  "calculateRelativeTime absoluteTime = absoluteTime - sessionStartTime"

definition broadcastTranscriptionResult :: "SpeechData \<Rightarrow> UserSession \<Rightarrow> UserSession" where
  "broadcastTranscriptionResult data s = perform (BroadcastTranscriptionResult data) s"

definition updateTranscriptHistory ::
  "int \<Rightarrow> RecognitionResult \<Rightarrow> bool \<Rightarrow> UserSession \<Rightarrow> UserSession" where
  "updateTranscriptHistory currentTime result final s =
     (let segments = transcript s;
          hasInterimLast = (length segments > 0 \<and> \<not> isFinal (segments ! (length segments - 1)));
          segment = \<lparr>resultId = ev_resultId result, speakerId = ev_speakerId result,
                     seg_text = ev_text result, timestamp = currentTime, isFinal = final\<rparr>;
          segments' =
            (if final then (if hasInterimLast then butlast segments else segments) @ [segment]
             else if hasInterimLast then segments[length segments - 1 := segment]
             else segments @ [segment]);
          thirtyMinutesAgo = currentTime - 30 * 60 * 1000
      in s\<lparr>transcript := filter (\<lambda>seg. timestamp seg \<ge> thirtyMinutesAgo) segments'\<rparr>)"

text \<open>The key under which the SDK files the translation: \<open>split('-')[0]\<close>, or \<open>zh-Hans\<close>.\<close>

definition translationKey :: "LanguageInfo \<Rightarrow> string option" where
  "translationKey languageInfo =
     (case translateLanguage languageInfo of
        None \<Rightarrow> None
      | Some t \<Rightarrow> Some (if t = ''zh-CN'' then ''zh-Hans'' else takeWhile (\<lambda>c. c \<noteq> CHR ''-'') t))"

definition translatedText ::
  "LanguageInfo \<Rightarrow> RecognitionResult \<Rightarrow> (string \<times> string) list \<Rightarrow> string option" where
  "translatedText languageInfo result translations =
     (if Some (transcribeLanguage languageInfo) = translateLanguage languageInfo
      then Some (ev_text result)
      else (case translationKey languageInfo of
              None \<Rightarrow> None
            | Some k \<Rightarrow> map_of translations k))"

definition speechData ::
  "StreamType \<Rightarrow> LanguageInfo \<Rightarrow> RecognitionResult \<Rightarrow> string option \<Rightarrow> bool \<Rightarrow> SpeechData" where
  "speechData ty languageInfo result txt final =
     \<lparr>sd_type = ty, sd_text = txt,
      sd_startTime = calculateRelativeTime (ev_offset result),
      sd_endTime = calculateRelativeTime (ev_offset result + ev_duration result),
      sd_isFinal = final, sd_speakerId = ev_speakerId result,
      sd_duration = (if final then Some (ev_duration result) else None),
      sd_transcribeLanguage = transcribeLanguage languageInfo,
      sd_translateLanguage =
        (if ty = TRANSLATION then translateLanguage languageInfo else None)\<rparr>"

text \<open>Translation branch: \<open>recognizing\<close> (interim) and \<open>recognized\<close> (final).\<close>

definition recognizing ::
  "LanguageInfo \<Rightarrow> int \<Rightarrow> RecognitionResult \<Rightarrow> UserSession \<Rightarrow> UserSession" where
  "recognizing languageInfo currentTime result s =
     (case ev_translations result of
        None \<Rightarrow> s
      | Some translations \<Rightarrow>
          updateTranscriptHistory currentTime result False
            (broadcastTranscriptionResult
               (speechData TRANSLATION languageInfo result
                  (translatedText languageInfo result translations) False) s))"

definition recognized ::
  "LanguageInfo \<Rightarrow> int \<Rightarrow> RecognitionResult \<Rightarrow> UserSession \<Rightarrow> UserSession" where
  "recognized languageInfo currentTime result s =
     (case ev_translations result of
        None \<Rightarrow> s
      | Some translations \<Rightarrow>
          updateTranscriptHistory currentTime result True
            (broadcastTranscriptionResult
               (speechData TRANSLATION languageInfo result
                  (translatedText languageInfo result translations) True) s))"

text \<open>Transcription branch: \<open>transcribing\<close> (interim) and \<open>transcribed\<close> (final).\<close>

definition transcribing ::
  "LanguageInfo \<Rightarrow> int \<Rightarrow> RecognitionResult \<Rightarrow> UserSession \<Rightarrow> UserSession" where
  "transcribing languageInfo currentTime result s =
     (if ev_text result = [] then s
      else broadcastTranscriptionResult
             (speechData TRANSCRIPTION languageInfo result (Some (ev_text result)) False)
             (if transcribeLanguage languageInfo = ''en-US''
              then updateTranscriptHistory currentTime result False s else s))"

definition transcribed ::
  "LanguageInfo \<Rightarrow> int \<Rightarrow> RecognitionResult \<Rightarrow> UserSession \<Rightarrow> UserSession" where
  "transcribed languageInfo currentTime result s =
     (if ev_text result = [] then s
      else broadcastTranscriptionResult
             (speechData TRANSCRIPTION languageInfo result (Some (ev_text result)) True)
             (if transcribeLanguage languageInfo = ''en-US''
              then updateTranscriptHistory currentTime result True s else s))"

text \<open>
  \<open>setupRecognitionHandlersForInstance\<close> installs the first pair on a stream whose
  language information has type translation, the second pair otherwise.
\<close>

definition onInterim ::
  "ASRStreamInstance \<Rightarrow> int \<Rightarrow> RecognitionResult \<Rightarrow> UserSession \<Rightarrow> UserSession" where
  "onInterim instance currentTime result s =
     (if li_type (handlerLanguageInfo instance) = TRANSLATION
      then recognizing (handlerLanguageInfo instance) currentTime result s
      else transcribing (handlerLanguageInfo instance) currentTime result s)"

definition onFinal ::
  "ASRStreamInstance \<Rightarrow> int \<Rightarrow> RecognitionResult \<Rightarrow> UserSession \<Rightarrow> UserSession" where
  "onFinal instance currentTime result s =
     (if li_type (handlerLanguageInfo instance) = TRANSLATION
      then recognized (handlerLanguageInfo instance) currentTime result s
      else transcribed (handlerLanguageInfo instance) currentTime result s)"

text \<open>\<open>startTranscription\<close> and \<open>stopTranscription\<close> (the legacy methods).\<close>

definition startTranscription :: "env \<Rightarrow> UserSession \<Rightarrow> (error + unit) \<times> UserSession" where
  "startTranscription env s = updateTranscriptionStreams env (minimalLanguageSubscriptions env) s"

definition stopTranscription :: "env \<Rightarrow> UserSession \<Rightarrow> (error + unit) \<times> UserSession" where
  "stopTranscription env s = updateTranscriptionStreams env [] s"

text \<open>
  The calls that creating the stream of one key consists of; the stream that it leaves
  in the map; whether the stop call of a stream raises; and the calls that stopping the
  stream consists of.
\<close>

definition createCalls :: "env \<Rightarrow> string \<Rightarrow> call list" where
  "createCalls env k =
     (case getLanguageInfo env k of
        None \<Rightarrow> []
      | Some languageInfo \<Rightarrow>
          [CreatePushStream k,
           if isTranslationConfig languageInfo then StartContinuousRecognitionAsync k
           else StartTranscribingAsync k])"

definition createRaises :: "env \<Rightarrow> string \<Rightarrow> bool" where
  "createRaises env k =
     (case getLanguageInfo env k of
        None \<Rightarrow> True
      | Some languageInfo \<Rightarrow>
          throws env (CreatePushStream k)
          \<or> throws env (if isTranslationConfig languageInfo then StartContinuousRecognitionAsync k
                         else StartTranscribingAsync k))"

definition newStream :: "env \<Rightarrow> string \<Rightarrow> ASRStreamInstance option" where
  "newStream env k =
     (case getLanguageInfo env k of
        None \<Rightarrow> None
      | Some languageInfo \<Rightarrow>
          Some \<lparr>recognizer =
                   (if isTranslationConfig languageInfo
                    then TranslationRecognizer (transcribeLanguage languageInfo)
                           (case translateLanguage languageInfo of None \<Rightarrow> [] | Some t \<Rightarrow> t)
                    else ConversationTranscriber (transcribeLanguage languageInfo)),
                 handlerLanguageInfo = languageInfo\<rparr>)"

definition stopCall :: "string \<Rightarrow> call" where
  "stopCall k =
     (if str_includes k ''translation'' then StopContinuousRecognitionAsync k
      else StopTranscribingAsync k)"

definition stopRaises :: "env \<Rightarrow> ASRStreamInstance \<Rightarrow> string \<Rightarrow> bool" where
  "stopRaises env streamInstance k =
     (throws env (stopCall k)
      \<or> str_includes k ''translation''
          \<noteq> (case recognizer streamInstance of
                TranslationRecognizer a b \<Rightarrow> True | ConversationTranscriber a \<Rightarrow> False))"

definition stopCalls :: "env \<Rightarrow> string \<times> ASRStreamInstance \<Rightarrow> call list" where
  "stopCalls env kv =
     (if stopRaises env (snd kv) (fst kv) then []
      else stopCall (fst kv)
           # (if throws env (RecognizerClose (fst kv)) then [] else [RecognizerClose (fst kv)]))
     @ (if throws env (PushStreamClose (fst kv)) then [] else [PushStreamClose (fst kv)])"


section \<open>WebSocketService (core/websocket.service.ts): TPA lifecycle\<close>

definition TPA_SESSION_TIMEOUT_MS :: nat where
  "TPA_SESSION_TIMEOUT_MS = 5000"

definition RECONNECT_GRACE_PERIOD_MS :: nat where
  "RECONNECT_GRACE_PERIOD_MS = 1000 * 60 * 1"

text \<open>\<open>await appService.getApp(packageName)\<close>: the record, nothing, or an exception.\<close>

definition getApp :: "env \<Rightarrow> string \<Rightarrow> error + App option" where
  "getApp env packageName =
     (if throws env (GetApp packageName) then Inl (Threw (GetApp packageName))
      else Inr (apps env packageName))"

text \<open>\<open>ws.close()\<close>: an open socket starts closing.\<close>

definition wsClose :: "nat \<Rightarrow> UserSession \<Rightarrow> UserSession" where
  "wsClose w s =
     perform (WsClose w)
       (s\<lparr>readyState := (readyState s)(w := (if readyState s w = CLOSED then CLOSED else CLOSING))\<rparr>)"

definition setTimeout :: "TimerCallback \<Rightarrow> nat \<Rightarrow> UserSession \<Rightarrow> UserSession" where
  "setTimeout callback delay s = s\<lparr>timers := timers s @ [(delay, callback)]\<rparr>"

definition compositeId :: "UserSession \<Rightarrow> string \<Rightarrow> string" where
  "compositeId s packageName = sessionId s @ ''-'' @ packageName"

subsection \<open>stopAppSession\<close>

text \<open>The block that ends the websocket connection of the app; its \<open>catch\<close> only logs.\<close>

definition closeAppConnection :: "env \<Rightarrow> string \<Rightarrow> UserSession \<Rightarrow> UserSession" where
  "closeAppConnection env packageName s =
     (case appConnections s packageName of
        None \<Rightarrow> s
      | Some w \<Rightarrow>
          (if readyState s w = OPEN then
             (if throws env (WsClose w) then s
              else (wsClose w s)\<lparr>appConnections := (appConnections s)(packageName := None)\<rparr>)
           else s))"

definition microphoneAfterStop :: "env \<Rightarrow> UserSession \<Rightarrow> (error + unit) \<times> UserSession" where
  "microphoneAfterStop env s =
     (case websocket s of
        None \<Rightarrow> (Inr (), s)
      | Some ws \<Rightarrow>
          (if throws env HasMediaSubscriptions then (Inl (Threw HasMediaSubscriptions), s)
           else if \<not> hasMediaSubscriptions env
                then attempt env (SendDebouncedMicrophoneStateChange False) s
                else (Inr (), s)))"

definition stopRequest :: "UserSession \<Rightarrow> string \<Rightarrow> WebhookRequest" where
  "stopRequest s packageName =
     \<lparr>wh_type = STOP_REQUEST, wh_sessionId = compositeId s packageName, wh_userId = userId s,
      wh_reason = Some ''user_disabled'', wh_augmentOSWebsocketUrl = None\<rparr>"

text \<open>The body of the \<open>try\<close> of \<open>stopAppSession\<close>.\<close>

definition stopAppSession_try ::
  "env \<Rightarrow> App \<Rightarrow> string \<Rightarrow> UserSession \<Rightarrow> (error + bool) \<times> UserSession" where
  "stopAppSession_try env app packageName s =
     (case attempt env (RemoveSubscriptions packageName) s of
        (Inl e, s1) \<Rightarrow> (Inl e, s1)
      | (Inr u, s1) \<Rightarrow>
          (let s2 = s1\<lparr>activeAppSessions :=
                         filter (\<lambda>appName. appName \<noteq> packageName) (activeAppSessions s1)\<rparr>;
               s3 = snd (attempt env (TriggerStopWebhook (publicUrl app) (stopRequest s2 packageName)) s2);
               s4 = closeAppConnection env packageName s3;
               s5 = snd (attempt env (UserRemoveRunningApp packageName) s4)
           in case attempt env (DisplayHandleAppStop packageName) s5 of
                (Inl e, s6) \<Rightarrow> (Inl e, s6)
              | (Inr u, s6) \<Rightarrow>
                  (case microphoneAfterStop env s6 of
                     (Inl e, s7) \<Rightarrow> (Inl e, s7)
                   | (Inr u, s7) \<Rightarrow> (Inr True, s7))))"

definition stopAppSession ::
  "env \<Rightarrow> string \<Rightarrow> UserSession \<Rightarrow> (error + bool) \<times> UserSession" where
  "stopAppSession env packageName s =
     (case getApp env packageName of
        Inl e \<Rightarrow> (Inl e, s)
      | Inr None \<Rightarrow> (Inl (AppNotFound packageName), s)
      | Inr (Some app) \<Rightarrow>
          (case stopAppSession_try env app packageName s of
             (Inl e, s') \<Rightarrow>
               (Inl e, s'\<lparr>activeAppSessions :=
                            filter (\<lambda>appName. appName \<noteq> packageName) (activeAppSessions s')\<rparr>)
           | (Inr b, s') \<Rightarrow> (Inr b, s')))"

subsection \<open>startAppSession\<close>

text \<open>
  The first loop over \<open>activeAppSessions\<close>: the names of the other active apps whose
  record is found and is of type STANDARD; a lookup that raises is logged and skipped.
\<close>

definition isRunningStandardApp :: "env \<Rightarrow> string \<Rightarrow> bool" where
  "isRunningStandardApp env activeAppName =
     (case getApp env activeAppName of
        Inr (Some activeApp) \<Rightarrow> tpaType activeApp = STANDARD
      | _ \<Rightarrow> False)"

definition runningStandardApps :: "env \<Rightarrow> string \<Rightarrow> UserSession \<Rightarrow> string list" where
  "runningStandardApps env packageName s =
     filter (\<lambda>activeAppName. activeAppName \<noteq> packageName \<and> isRunningStandardApp env activeAppName)
       (activeAppSessions s)"

text \<open>
  The second loop: each is stopped; an exception of \<open>stopAppSession\<close> is logged.
  \<open>stopAppSession\<close> looks the app up again, and this lookup, like every call that it
  makes, is answered as the services answer by then: it may raise or find nothing for an
  app that the first loop has found.
\<close>

fun stopStandardApps :: "env \<Rightarrow> string list \<Rightarrow> UserSession \<Rightarrow> UserSession" where
  "stopStandardApps env [] s = s"
| "stopStandardApps env (standardAppToStop # rest) s =
     stopStandardApps env rest (snd (stopAppSession (later env) standardAppToStop s))"

text \<open>The lookup inside \<open>stopAppSession\<close>, in the second loop, finds the record of the app.\<close>

definition stopFinds :: "env \<Rightarrow> string \<Rightarrow> bool" where
  "stopFinds env standardAppToStop =
     (case getApp (later env) standardAppToStop of
        Inr (Some app) \<Rightarrow> True
      | _ \<Rightarrow> False)"

definition truthy :: "string option \<Rightarrow> bool" where
  "truthy v = (case v of None \<Rightarrow> False | Some x \<Rightarrow> x \<noteq> [])"

definition augmentOSWebsocketUrl :: "env \<Rightarrow> App \<Rightarrow> string" where
  "augmentOSWebsocketUrl env app =
     (if isSystemApp app then
        (if CONTAINER_ENVIRONMENT env = Some ''true'' \<or> CLOUD_HOST_NAME env = Some ''cloud''
            \<or> truthy (PORTER_APP_NAME env)
         then (if truthy (PORTER_APP_NAME env)
               then ''ws://'' @ (case PORTER_APP_NAME env of None \<Rightarrow> [] | Some n \<Rightarrow> n)
                      @ ''-cloud.default.svc.cluster.local:80/tpa-ws''
               else ''ws://cloud/tpa-ws'')
         else ''ws://localhost:8002/tpa-ws'')
      else ''wss://''
             @ (case CLOUD_PUBLIC_HOST_NAME env of None \<Rightarrow> ''undefined'' | Some h \<Rightarrow> h)
             @ ''/tpa-ws'')"

definition sessionRequest :: "env \<Rightarrow> App \<Rightarrow> UserSession \<Rightarrow> string \<Rightarrow> WebhookRequest" where
  "sessionRequest env app s packageName =
     \<lparr>wh_type = SESSION_REQUEST, wh_sessionId = compositeId s packageName, wh_userId = userId s,
      wh_reason = None, wh_augmentOSWebsocketUrl = Some (augmentOSWebsocketUrl env app)\<rparr>"

definition microphoneAfterStart :: "env \<Rightarrow> UserSession \<Rightarrow> (error + unit) \<times> UserSession" where
  "microphoneAfterStart env s =
     (case websocket s of
        None \<Rightarrow> (Inr (), s)
      | Some ws \<Rightarrow>
          (if throws env HasMediaSubscriptions then (Inl (Threw HasMediaSubscriptions), s)
           else if hasMediaSubscriptions env
                then attempt env (SendDebouncedMicrophoneStateChange True) s
                else (Inr (), s)))"

text \<open>
  What \<open>startAppSession\<close> does before the \<open>try\<close>: the STANDARD apps that run are
  stopped, then the package is stored as pending.
\<close>

definition startAppSession_pending :: "env \<Rightarrow> App \<Rightarrow> string \<Rightarrow> UserSession \<Rightarrow> UserSession" where
  "startAppSession_pending env app packageName s =
     (let s1 = (if tpaType app = STANDARD
                then stopStandardApps env (runningStandardApps env packageName s) s else s)
      in s1\<lparr>loadingApps := insert packageName (loadingApps s1)\<rparr>)"

text \<open>
  The body of the \<open>try\<close>, from the point where the webhook has answered: boot screen,
  timer, the package moves from the loading apps to the active ones, user document,
  microphone.
\<close>

definition startAppSession_started ::
  "env \<Rightarrow> App \<Rightarrow> string \<Rightarrow> UserSession \<Rightarrow> (error + string) \<times> UserSession" where
  "startAppSession_started env app packageName s =
     (case attempt env (DisplayHandleAppStart (app_packageName app)) s of
        (Inl e, s1) \<Rightarrow> (Inl e, s1)
      | (Inr u, s1) \<Rightarrow>
          (let s2 = setTimeout (LoadingTimeout packageName (app_packageName app))
                      TPA_SESSION_TIMEOUT_MS s1;
               s3 = (if packageName \<notin> set (activeAppSessions s2)
                     then s2\<lparr>activeAppSessions := activeAppSessions s2 @ [packageName]\<rparr> else s2);
               s4 = s3\<lparr>loadingApps := loadingApps s3 - {packageName}\<rparr>;
               s5 = snd (attempt env (UserAddRunningApp packageName) s4)
           in case microphoneAfterStart env s5 of
                (Inl e, s6) \<Rightarrow> (Inl e, s6)
              | (Inr u, s6) \<Rightarrow> (Inr (compositeId s6 packageName), s6)))"

definition startAppSession_try ::
  "env \<Rightarrow> App \<Rightarrow> string \<Rightarrow> UserSession \<Rightarrow> (error + string) \<times> UserSession" where
  "startAppSession_try env app packageName s =
     (case attempt env (TriggerWebhook (publicUrl app @ ''/webhook'')
                          (sessionRequest env app s packageName)) s of
        (Inl e, s1) \<Rightarrow> (Inl e, s1)
      | (Inr u, s1) \<Rightarrow> startAppSession_started env app packageName s1)"

definition startAppSession ::
  "env \<Rightarrow> string \<Rightarrow> UserSession \<Rightarrow> (error + string) \<times> UserSession" where
  "startAppSession env packageName s =
     (if packageName \<in> loadingApps s \<or> packageName \<in> set (activeAppSessions s)
      then (Inr (compositeId s packageName), s)
      else (case getApp env packageName of
              Inl e \<Rightarrow> (Inl e, s)
            | Inr None \<Rightarrow> (Inl (AppNotFound packageName), s)
            | Inr (Some app) \<Rightarrow>
                (case startAppSession_try env app packageName
                        (startAppSession_pending env app packageName s) of
                   (Inl e, s') \<Rightarrow> (Inl e, s'\<lparr>loadingApps := loadingApps s' - {packageName}\<rparr>)
                 | (Inr tpaSessionId, s') \<Rightarrow> (Inr tpaSessionId, s'))))"

text \<open>The callback of the timer that \<open>startAppSession\<close> sets.\<close>

definition loadingTimeout :: "string \<Rightarrow> string \<Rightarrow> UserSession \<Rightarrow> UserSession" where
  "loadingTimeout packageName appPackageName s =
     (if packageName \<in> loadingApps s
      then perform (DisplayHandleAppStop appPackageName)
             (s\<lparr>loadingApps := loadingApps s - {packageName}\<rparr>)
      else s)"

subsection \<open>handleTpaInit\<close>

datatype TpaInitOutcome = ClosedNoActiveSession | ClosedInvalidApiKey | Acknowledged

text \<open>
  \<open>handleTpaInit\<close> once the session is found. The two checks that follow the API key
  (registered server; loading or active) only log a warning, which is recorded as a
  call: the \<open>ws.close\<close> and the \<open>return\<close> under them are commented out in the source. The settings block and the
  cached location sent to the dashboard sit in \<open>try\<close> blocks whose \<open>catch\<close> only logs
  and do not touch the session; the first is read from \<open>userSettings\<close>, the second is
  left out.
\<close>

definition tpaInitWarnings :: "env \<Rightarrow> TpaConnectionInit \<Rightarrow> UserSession \<Rightarrow> UserSession" where
  "tpaInitWarnings env initMessage s =
     (let packageName = init_packageName initMessage;
          isValidTpa = handleTpaSessionStart env initMessage;
          systemApp = (packageName \<in> set (systemApps env));
          isLoading = (packageName \<in> loadingApps s);
          isActive = (packageName \<in> set (activeAppSessions s));
          w1 = (if \<not> systemApp \<and> \<not> isValidTpa
                then perform (LoggerWarn ''Unregistered TPA attempting to connect'') s
                else s)
      in if \<not> systemApp \<and> \<not> isLoading \<and> \<not> isActive
         then perform (LoggerWarn ''TPA not in loading or active state'') w1
         else w1)"

definition handleTpaInit_session ::
  "env \<Rightarrow> nat \<Rightarrow> TpaConnectionInit \<Rightarrow> UserSession \<Rightarrow> (error + TpaInitOutcome) \<times> UserSession" where
  "handleTpaInit_session env ws initMessage s =
     (let packageName = init_packageName initMessage;
          validate = ValidateApiKey packageName (init_apiKey initMessage) (clientIp env ws)
      in if throws env validate then (Inl (Threw validate), s)
         else if \<not> validateApiKey env packageName (init_apiKey initMessage) (clientIp env ws)
              then (Inr ClosedInvalidApiKey, wsClose ws s)
         else (case attempt env (HandleTpaSessionStart packageName) s of
                 (Inl e, s1) \<Rightarrow> (Inl e, s1)
               | (Inr u, s1) \<Rightarrow>
                   (let isLoading = (packageName \<in> loadingApps s1);
                        w = tpaInitWarnings env initMessage s1;
                        s2 = perform (SetCurrentSessionId (init_sessionId initMessage))
                               (w\<lparr>appConnections := (appConnections w)(packageName \<mapsto> ws)\<rparr>);
                        s3 = (if isLoading then
                                (let s' = s2\<lparr>loadingApps := loadingApps s2 - {packageName}\<rparr>
                                 in if packageName \<notin> set (activeAppSessions s')
                                    then s'\<lparr>activeAppSessions := activeAppSessions s' @ [packageName]\<rparr>
                                    else s')
                              else s2)
                    in case attempt env (WsSend ws (TpaConnectionAck (init_sessionId initMessage)
                                                    (userSettings env packageName))) s3 of
                         (Inl e, s4) \<Rightarrow> (Inl e, s4)
                       | (Inr u, s4) \<Rightarrow> (Inr Acknowledged, s4))))"

text \<open>
  \<open>handleTpaInit\<close>: the session is looked up in the session service under the part of
  the composite id before the first dash.
\<close>

definition handleTpaInit ::
  "env \<Rightarrow> nat \<Rightarrow> TpaConnectionInit \<Rightarrow> (string \<Rightarrow> UserSession option)
     \<Rightarrow> (error + TpaInitOutcome) \<times> (string \<Rightarrow> UserSession option)" where
  "handleTpaInit env ws initMessage sessions =
     (let userSessionId = takeWhile (\<lambda>c. c \<noteq> CHR ''-'') (init_sessionId initMessage)
      in case sessions userSessionId of
           None \<Rightarrow> (Inr ClosedNoActiveSession, sessions)
         | Some userSession \<Rightarrow>
             (case handleTpaInit_session env ws initMessage userSession of
                (r, s') \<Rightarrow> (r, sessions(userSessionId \<mapsto> s'))))"


subsection \<open>Messages and events of the glasses connection\<close>





text \<open>\<open>start_app\<close>: whatever its \<open>try\<close> raises is logged.\<close>

definition handleStartApp :: "env \<Rightarrow> nat \<Rightarrow> string \<Rightarrow> UserSession \<Rightarrow> UserSession" where
  "handleStartApp env ws packageName s =
     (case startAppSession env packageName s of
        (Inl e, s1) \<Rightarrow> s1
      | (Inr tpaSessionId, s1) \<Rightarrow>
          (if throws env GenerateAppStateStatus then s1
           else snd (attempts env [WsSend ws (AppStateChange (newSet (activeAppSessions s1))),
                                   PosthogTrackEvent (''start_app:'' @ packageName)] s1)))"

text \<open>\<open>stop_app\<close>: the body of its \<open>try\<close>, then the \<open>catch\<close> that filters the active apps.\<close>

definition handleStopApp_try ::
  "env \<Rightarrow> nat \<Rightarrow> string \<Rightarrow> UserSession \<Rightarrow> (error + unit) \<times> UserSession" where
  "handleStopApp_try env ws packageName s =
     (case attempt env (PosthogTrackEvent (''stop_app:'' @ packageName)) s of
        (Inl e, s1) \<Rightarrow> (Inl e, s1)
      | (Inr u, s1) \<Rightarrow>
          (case (case appConnections s1 packageName of
                   None \<Rightarrow> (Inr (), s1)
                 | Some w \<Rightarrow>
                     (if readyState s1 w = OPEN then
                        (if throws env (WsClose w) then (Inl (Threw (WsClose w)), s1)
                         else (Inr (), wsClose w s1))
                      else (Inr (), s1))) of
             (Inl e, s2) \<Rightarrow> (Inl e, s2)
           | (Inr u, s2) \<Rightarrow>
               (case stopAppSession env packageName
                       (s2\<lparr>appConnections := (appConnections s2)(packageName := None)\<rparr>) of
                  (Inl e, s3) \<Rightarrow> (Inl e, s3)
                | (Inr b, s3) \<Rightarrow>
                    (if throws env GenerateAppStateStatus
                     then (Inl (Threw GenerateAppStateStatus), s3)
                     else attempt env (WsSend ws (AppStateChange (newSet (activeAppSessions s3)))) s3))))"

definition handleStopApp :: "env \<Rightarrow> nat \<Rightarrow> string \<Rightarrow> UserSession \<Rightarrow> UserSession" where
  "handleStopApp env ws packageName s =
     (case handleStopApp_try env ws packageName s of
        (Inl e, s') \<Rightarrow>
          s'\<lparr>activeAppSessions := filter (\<lambda>p. p \<noteq> packageName) (activeAppSessions s')\<rparr>
      | (Inr u, s') \<Rightarrow> s')"

definition handleGlassesConnectionState ::
  "env \<Rightarrow> nat \<Rightarrow> string \<Rightarrow> UserSession \<Rightarrow> (error + unit) \<times> UserSession" where
  "handleGlassesConnectionState env ws status s =
     (case (if status = ''CONNECTED'' then
              (if throws env HasMediaSubscriptions then (Inl (Threw HasMediaSubscriptions), s)
               else attempt env (SendDebouncedMicrophoneStateChange (hasMediaSubscriptions env)) s)
            else (Inr (), s)) of
        (Inl e, s1) \<Rightarrow> (Inl e, s1)
      | (Inr u, s1) \<Rightarrow>
          attempts env (PosthogTrackEvent ''glasses_connection_state''
                        # (if status = ''CONNECTED'' then [PosthogTrackEvent ''modelName''] else [])) s1)"

definition handleVad :: "env \<Rightarrow> bool \<Rightarrow> UserSession \<Rightarrow> (error + unit) \<times> UserSession" where
  "handleVad env speaking s =
     (case (if speaking then startTranscription env (s\<lparr>isTranscribing := True\<rparr>)
            else stopTranscription env (s\<lparr>isTranscribing := False\<rparr>)) of
        (Inr u, s1) \<Rightarrow> (Inr (), perform (BroadcastToTpa ''vad'') s1)
      | (Inl e, s1) \<Rightarrow>
          (case stopTranscription env (s1\<lparr>isTranscribing := False\<rparr>) of
             (Inl e', s2) \<Rightarrow> (Inl e', s2)
           | (Inr u, s2) \<Rightarrow> (Inr (), perform (BroadcastToTpa ''vad'') s2)))"



text \<open>
  The \<open>close\<close> and \<open>error\<close> handlers that \<open>handleGlassesConnection\<close> installs on the
  glasses socket \<open>ws\<close>, and the callback of the grace timer. The \<open>close\<close> event is emitted
  once the socket has reached \<open>CLOSED\<close>.
\<close>

definition glassesOnClose :: "nat \<Rightarrow> UserSession \<Rightarrow> UserSession" where
  "glassesOnClose ws s =
     perform (PosthogTrackEvent ''disconnected'')
       (setTimeout GraceCheck RECONNECT_GRACE_PERIOD_MS
          (perform MarkSessionDisconnected (s\<lparr>readyState := (readyState s)(ws := CLOSED)\<rparr>)))"

definition graceCheck :: "UserSession \<Rightarrow> (error + unit) \<times> UserSession" where
  "graceCheck s =
     (case websocket s of
        None \<Rightarrow> (Inl TypeError, s)
      | Some w \<Rightarrow>
          (if readyState s w = CLOSED \<or> readyState s w = CLOSING
           then (Inr (), perform EndSession s)
           else (Inr (), s)))"

definition glassesOnError :: "nat \<Rightarrow> UserSession \<Rightarrow> UserSession" where
  "glassesOnError ws s = wsClose ws (perform EndSession s)"







subsection \<open>sendDebouncedMicrophoneStateChange\<close>











section \<open>SpeechRecAugmentos (the VAD gate of the phone)\<close>

text \<open>
  The fields of \<open>SpeechRecAugmentos\<close> that gate the audio. \<open>vadInitialized\<close> stands for
  \<open>vadPolicy != null && isVadInitialized()\<close>, \<open>previousVadState\<close> is the local variable
  of the listener thread, \<open>serverComms\<close> what has been handed to \<open>ServerComms\<close>. The
  sample queue that feeds the VAD policy is left out: only the policy reads it, and the
  verdict of the policy is an input of each iteration of the listener.
\<close>

datatype ServerMsg = VadStatus bool | AudioChunk "nat list"

record SpeechRecAugmentos =
  isSpeaking :: bool
  bypassVadForDebugging :: bool
  sendPcmToBackend :: bool
  vadInitialized :: bool
  lc3RollingBuffer :: "nat list list"
  previousVadState :: bool
  serverComms :: "ServerMsg list"

definition LC3_BUFFER_MAX_SIZE :: nat where
  "LC3_BUFFER_MAX_SIZE = 22"

text \<open>\<open>while (lc3RollingBuffer.size() > LC3_BUFFER_MAX_SIZE) lc3RollingBuffer.remove(0)\<close>.\<close>

function trimRollingBuffer :: "nat list list \<Rightarrow> nat list list" where
  "trimRollingBuffer buf =
     (if length buf > LC3_BUFFER_MAX_SIZE then trimRollingBuffer (tl buf) else buf)"
  by pat_completeness auto
termination
  by (relation "measure length") (auto simp: LC3_BUFFER_MAX_SIZE_def)

declare trimRollingBuffer.simps [simp del]

definition sendAudioChunk :: "nat list \<Rightarrow> SpeechRecAugmentos \<Rightarrow> SpeechRecAugmentos" where
  "sendAudioChunk chunk g = g\<lparr>serverComms := serverComms g @ [AudioChunk chunk]\<rparr>"

definition sendVadStatus :: "bool \<Rightarrow> SpeechRecAugmentos \<Rightarrow> SpeechRecAugmentos" where
  "sendVadStatus isNowSpeaking g = g\<lparr>serverComms := serverComms g @ [VadStatus isNowSpeaking]\<rparr>"

definition sendBufferedAudio :: "SpeechRecAugmentos \<Rightarrow> SpeechRecAugmentos" where
  "sendBufferedAudio g = fold sendAudioChunk (lc3RollingBuffer g) g"

text \<open>One iteration of the loop of \<open>setupVadListener\<close>, given the verdict of the policy.\<close>

definition vadListenerIteration :: "bool \<Rightarrow> SpeechRecAugmentos \<Rightarrow> SpeechRecAugmentos" where
  "vadListenerIteration newVadIsSpeakingState g =
     (if newVadIsSpeakingState \<noteq> previousVadState g then
        (if newVadIsSpeakingState
         then (sendBufferedAudio (sendVadStatus True g))
                \<lparr>isSpeaking := True, previousVadState := newVadIsSpeakingState\<rparr>
         else (sendVadStatus False g)
                \<lparr>isSpeaking := False, previousVadState := newVadIsSpeakingState\<rparr>)
      else g)"

definition bufferAndSend :: "nat list \<Rightarrow> SpeechRecAugmentos \<Rightarrow> SpeechRecAugmentos" where
  "bufferAndSend chunk g =
     (let g1 = g\<lparr>lc3RollingBuffer := trimRollingBuffer (lc3RollingBuffer g @ [chunk])\<rparr>
      in if bypassVadForDebugging g1 \<or> isSpeaking g1 then sendAudioChunk chunk g1 else g1)"

definition ingestAudioChunk :: "nat list \<Rightarrow> SpeechRecAugmentos \<Rightarrow> SpeechRecAugmentos" where
  "ingestAudioChunk audioChunk g =
     (if \<not> vadInitialized g then g
      else if sendPcmToBackend g then bufferAndSend audioChunk g
      else g)"

definition ingestLC3AudioChunk :: "nat list \<Rightarrow> SpeechRecAugmentos \<Rightarrow> SpeechRecAugmentos" where
  "ingestLC3AudioChunk LC3audioChunk g =
     (if \<not> sendPcmToBackend g then bufferAndSend LC3audioChunk g else g)"

definition changeBypassVadForDebuggingState :: "bool \<Rightarrow> SpeechRecAugmentos \<Rightarrow> SpeechRecAugmentos" where
  "changeBypassVadForDebuggingState b g = g\<lparr>bypassVadForDebugging := b\<rparr>"

datatype GateEvent =
    IngestAudioChunk "nat list"
  | IngestLC3AudioChunk "nat list"
  | VadListener bool
  | ChangeBypass bool
  | VadReady

definition gateStep :: "GateEvent \<Rightarrow> SpeechRecAugmentos \<Rightarrow> SpeechRecAugmentos" where
  "gateStep ev g =
     (case ev of
        IngestAudioChunk c \<Rightarrow> ingestAudioChunk c g
      | IngestLC3AudioChunk c \<Rightarrow> ingestLC3AudioChunk c g
      | VadListener v \<Rightarrow> vadListenerIteration v g
      | ChangeBypass b \<Rightarrow> changeBypassVadForDebuggingState b g
      | VadReady \<Rightarrow> g\<lparr>vadInitialized := True\<rparr>)"

fun gateRun :: "GateEvent list \<Rightarrow> SpeechRecAugmentos \<Rightarrow> SpeechRecAugmentos" where
  "gateRun [] g = g"
| "gateRun (ev # evs) g = gateRun evs (gateStep ev g)"

text \<open>The object as its constructor leaves it; the bypass flag comes from the settings.\<close>

definition newSpeechRecAugmentos :: "bool \<Rightarrow> SpeechRecAugmentos" where
  "newSpeechRecAugmentos bypass =
     \<lparr>isSpeaking = False, bypassVadForDebugging = bypass, sendPcmToBackend = True,
      vadInitialized = False, lc3RollingBuffer = [], previousVadState = False,
      serverComms = []\<rparr>"


text \<open>
  Reading what reached the server as a gate: a VAD status opens or closes it, and an
  audio chunk is in order only while it is open.
\<close>

fun wellGated :: "bool \<Rightarrow> ServerMsg list \<Rightarrow> bool" where
  "wellGated opened [] = True"
| "wellGated opened (VadStatus v # ms) = wellGated v ms"
| "wellGated opened (AudioChunk c # ms) = (opened \<and> wellGated opened ms)"

fun gateAfter :: "bool \<Rightarrow> ServerMsg list \<Rightarrow> bool" where
  "gateAfter opened [] = opened"
| "gateAfter opened (VadStatus v # ms) = gateAfter v ms"
| "gateAfter opened (AudioChunk c # ms) = gateAfter opened ms"

text \<open>
  The state of the gate between two events, as long as the bypass flag is not set: the
  field \<open>isSpeaking\<close> agrees with the listener, and what reached the server is in order
  and leaves the gate as \<open>isSpeaking\<close> says.
\<close>

definition gated :: "SpeechRecAugmentos \<Rightarrow> bool" where
  "gated g = (\<not> bypassVadForDebugging g \<and> isSpeaking g = previousVadState g
              \<and> wellGated False (serverComms g)
              \<and> gateAfter False (serverComms g) = isSpeaking g)"

section \<open>Example inputs\<close>

text \<open>
  An environment in which no call raises, now or later, with two STANDARD apps and a
  background app in an app collection that does not change, and a session with an open
  glasses socket and no apps, streams, timers or calls yet.
\<close>

definition exampleApps :: "string \<Rightarrow> App option" where
  "exampleApps =
     (\<lambda>p.
        if p = ''com.a'' then Some \<lparr>app_packageName = ''com.a'', publicUrl = ''https://a.example'',
                                     tpaType = STANDARD, isSystemApp = False\<rparr>
        else if p = ''com.b'' then Some \<lparr>app_packageName = ''com.b'', publicUrl = ''https://b.example'',
                                     tpaType = STANDARD, isSystemApp = False\<rparr>
        else if p = ''com.bg'' then Some \<lparr>app_packageName = ''com.bg'', publicUrl = ''https://bg.example'',
                                     tpaType = BACKGROUND, isSystemApp = False\<rparr>
        else None)"

definition exampleEnv :: env where
  "exampleEnv =
     \<lparr>getLanguageInfo = (\<lambda>k.
        if k = ''transcription:en-US''
        then Some \<lparr>li_type = TRANSCRIPTION, transcribeLanguage = ''en-US'', translateLanguage = None\<rparr>
        else if k = ''translation:es-ES-to-en-US''
        then Some \<lparr>li_type = TRANSLATION, transcribeLanguage = ''es-ES'',
                    translateLanguage = Some ''en-US''\<rparr>
        else None),
      apps = exampleApps,
      throws = (\<lambda>c. False),
      laterThrows = (\<lambda>c. False),
      laterApps = exampleApps,
      hasMediaSubscriptions = False,
      minimalLanguageSubscriptions = [],
      validateApiKey = (\<lambda>p k ip. k = ''secret''),
      handleTpaSessionStart = (\<lambda>m. True),
      systemApps = [''com.augmentos.dashboard''],
      dashboardPackageName = ''com.augmentos.dashboard'',
      userSettings = (\<lambda>p. []),
      runningApps = [],
      clientIp = (\<lambda>w. ''10.0.0.1''),
      CONTAINER_ENVIRONMENT = None,
      CLOUD_HOST_NAME = None,
      PORTER_APP_NAME = None,
      CLOUD_PUBLIC_HOST_NAME = Some ''cloud.example''\<rparr>"

definition exampleSession :: UserSession where
  "exampleSession =
     \<lparr>sessionId = ''s1'', userId = ''user@example.com'', websocket = Some 0,
      activeAppSessions = [], loadingApps = {}, appConnections = (\<lambda>p. None),
      isTranscribing = False, transcriptionStreams = None, transcript = [],
      readyState = (\<lambda>w. OPEN), timers = [], effects = []\<rparr>"

definition streamingSession :: UserSession where
  "streamingSession =
     exampleSession\<lparr>transcriptionStreams :=
       Some [(''translation:es-ES-to-en-US'',
              \<lparr>recognizer = TranslationRecognizer ''es-ES'' ''en-US'',
               handlerLanguageInfo = \<lparr>li_type = TRANSLATION, transcribeLanguage = ''es-ES'',
                                      translateLanguage = Some ''en-US''\<rparr>\<rparr>)]\<rparr>"

definition goneSession :: UserSession where
  "goneSession = exampleSession\<lparr>activeAppSessions := [''com.gone'']\<rparr>"

definition runningSession :: UserSession where
  "runningSession = exampleSession\<lparr>activeAppSessions := [''com.a'', ''com.bg'']\<rparr>"

definition strayInit :: TpaConnectionInit where
  "strayInit = \<lparr>init_packageName = ''com.stray'', init_sessionId = ''s1-com.stray'',
                 init_apiKey = ''secret''\<rparr>"

definition loadingSession :: UserSession where
  "loadingSession = exampleSession\<lparr>loadingApps := {''com.a''}\<rparr>"

definition initA :: TpaConnectionInit where
  "initA = \<lparr>init_packageName = ''com.a'', init_sessionId = ''s1-com.a'', init_apiKey = ''secret''\<rparr>"

text \<open>The same environment, except that every session-request webhook raises.\<close>

definition webhookDownEnv :: env where
  "webhookDownEnv =
     exampleEnv\<lparr>throws := (\<lambda>c. case c of TriggerWebhook url request \<Rightarrow> True | _ \<Rightarrow> False)\<rparr>"

text \<open>The same environment, except that the lookup of the app \<open>com.a\<close> raises.\<close>

definition lookupDownEnv :: env where
  "lookupDownEnv = exampleEnv\<lparr>throws := (\<lambda>c. c = GetApp ''com.a'')\<rparr>"

text \<open>
  The same environment, except that the lookup of the app \<open>com.a\<close> raises by the time
  \<open>stopAppSession\<close> makes it: the first loop of \<open>startAppSession\<close> still finds the app.
\<close>

definition stopLookupDownEnv :: env where
  "stopLookupDownEnv = exampleEnv\<lparr>laterThrows := (\<lambda>c. c = GetApp ''com.a'')\<rparr>"


text \<open>
  The same environment, except that \<open>stopContinuousRecognitionAsync\<close> raises on the
  recognizer of the stream \<open>translation:es-ES-to-en-US\<close>.
\<close>

definition stopRaisesEnv :: env where
  "stopRaisesEnv =
     exampleEnv\<lparr>throws :=
       (\<lambda>c. c = StopContinuousRecognitionAsync ''translation:es-ES-to-en-US'')\<rparr>"



text \<open>
  An interim result of the stream \<open>translation:es-ES-to-en-US\<close>, and the stream; a gate
  that is silent with one chunk buffered, and the same gate while speaking.
\<close>

definition spanishInterim :: RecognitionResult where
  "spanishInterim =
     \<lparr>ev_resultId = ''r1'', ev_speakerId = None, ev_text = ''hola'', ev_offset = 0,
      ev_duration = 500, ev_translations = Some [(''en'', ''hello'')]\<rparr>"

definition spanishToEnglish :: ASRStreamInstance where
  "spanishToEnglish =
     \<lparr>recognizer = TranslationRecognizer ''es-ES'' ''en-US'',
      handlerLanguageInfo = \<lparr>li_type = TRANSLATION, transcribeLanguage = ''es-ES'',
                             translateLanguage = Some ''en-US''\<rparr>\<rparr>"

definition silentGate :: SpeechRecAugmentos where
  "silentGate = (newSpeechRecAugmentos False)\<lparr>vadInitialized := True, lc3RollingBuffer := [[10]]\<rparr>"

definition speakingGate :: SpeechRecAugmentos where
  "speakingGate = silentGate\<lparr>isSpeaking := True, previousVadState := True\<rparr>"

section \<open>Basic facts about the primitives\<close>

lemma perform_fields [simp]:
  "effects (perform c s) = effects s @ [c]"
  "activeAppSessions (perform c s) = activeAppSessions s"
  "loadingApps (perform c s) = loadingApps s"
  "appConnections (perform c s) = appConnections s"
  "sessionId (perform c s) = sessionId s"
  "userId (perform c s) = userId s"
  "websocket (perform c s) = websocket s"
  "readyState (perform c s) = readyState s"
  "timers (perform c s) = timers s"
  "transcriptionStreams (perform c s) = transcriptionStreams s"
  "transcript (perform c s) = transcript s"
  by (simp_all add: perform_def)

lemma attempt_fields [simp]:
  "activeAppSessions (snd (attempt env c s)) = activeAppSessions s"
  "loadingApps (snd (attempt env c s)) = loadingApps s"
  "appConnections (snd (attempt env c s)) = appConnections s"
  "sessionId (snd (attempt env c s)) = sessionId s"
  "websocket (snd (attempt env c s)) = websocket s"
  "readyState (snd (attempt env c s)) = readyState s"
  "timers (snd (attempt env c s)) = timers s"
  by (simp_all add: attempt_def)

lemma attempt_cases:
  "attempt env c s = (Inl e, s') \<Longrightarrow> s' = s \<and> e = Threw c \<and> throws env c"
  "attempt env c s = (Inr u, s') \<Longrightarrow> s' = perform c s \<and> \<not> throws env c"
  by (auto simp: attempt_def split: if_splits)

lemma attempts_fields [simp]:
  "activeAppSessions (snd (attempts env cs s)) = activeAppSessions s"
  "loadingApps (snd (attempts env cs s)) = loadingApps s"
  "appConnections (snd (attempts env cs s)) = appConnections s"
  "sessionId (snd (attempts env cs s)) = sessionId s"
  by (induction cs arbitrary: s; simp add: attempt_def)+

lemma wsClose_fields [simp]:
  "activeAppSessions (wsClose w s) = activeAppSessions s"
  "loadingApps (wsClose w s) = loadingApps s"
  "appConnections (wsClose w s) = appConnections s"
  "sessionId (wsClose w s) = sessionId s"
  "websocket (wsClose w s) = websocket s"
  "timers (wsClose w s) = timers s"
  "effects (wsClose w s) = effects s @ [WsClose w]"
  by (simp_all add: wsClose_def)

lemma tpaInitWarnings_fields [simp]:
  "activeAppSessions (tpaInitWarnings env m s) = activeAppSessions s"
  "loadingApps (tpaInitWarnings env m s) = loadingApps s"
  "appConnections (tpaInitWarnings env m s) = appConnections s"
  "sessionId (tpaInitWarnings env m s) = sessionId s"
  by (simp_all add: tpaInitWarnings_def Let_def)

lemma tpaInitWarnings_effects:
  "\<exists>ws. effects (tpaInitWarnings env m s) = effects s @ ws"
  by (simp add: tpaInitWarnings_def Let_def)

lemma fst_attempt [simp]:
  "fst (attempt env c s) = (if throws env c then Inl (Threw c) else Inr ())"
  by (simp add: attempt_def)

lemma streamsOf_simps [simp]:
  "streamsOf (s\<lparr>transcriptionStreams := Some m\<rparr>) = m"
  "streamsOf (perform c s) = streamsOf s"
  "streamsOf (s\<lparr>effects := e\<rparr>) = streamsOf s"
  by (simp_all add: streamsOf_def perform_def)

lemma set_newSet [simp]: "set (newSet xs) = set xs"
  by (simp add: newSet_def)

lemma distinct_newSet [simp]: "distinct (newSet xs)"
  by (simp add: newSet_def)

section \<open>The transcription streams follow the desired subscriptions\<close>

lemma createASR_Inr:
  "createASRStreamForSubscription env k s = (Inr i, s') \<Longrightarrow>
     streamsOf s' = streamsOf s \<and> effects s' = effects s @ createCalls env k
     \<and> newStream env k = Some i \<and> \<not> createRaises env k"
  by (auto simp: createASRStreamForSubscription_def createCalls_def newStream_def
        createRaises_def attempt_def split: option.splits if_splits)

lemma createASR_total:
  "\<not> createRaises env k \<Longrightarrow> \<exists>i s1. createASRStreamForSubscription env k s = (Inr i, s1)"
  by (auto simp: createASRStreamForSubscription_def createRaises_def attempt_def
        split: option.splits if_splits)

lemma createNewStreams_Inr:
  "createNewStreams env subs s = (Inr u, s') \<Longrightarrow> distinct subs \<Longrightarrow>
     (\<exists>new. streamsOf s' = streamsOf s @ new
          \<and> map fst new = filter (\<lambda>k. \<not> has (streamsOf s) k) subs
          \<and> (\<forall>kv\<in>set new. newStream env (fst kv) = Some (snd kv)))
     \<and> effects s' = effects s @ concat (map (createCalls env) (filter (\<lambda>k. \<not> has (streamsOf s) k) subs))"
proof (induction subs arbitrary: s)
  case Nil
  then show ?case by simp
next
  case (Cons k rest)
  show ?case
  proof (cases "has (streamsOf s) k")
    case True
    with Cons show ?thesis by simp
  next
    case False
    with Cons.prems obtain i s1 where c: "createASRStreamForSubscription env k s = (Inr i, s1)"
      and r: "createNewStreams env rest (s1\<lparr>transcriptionStreams := Some (streamsOf s1 @ [(k, i)])\<rparr>) = (Inr u, s')"
      by (auto split: prod.splits sum.splits)
    let ?s2 = "s1\<lparr>transcriptionStreams := Some (streamsOf s1 @ [(k, i)])\<rparr>"
    from createASR_Inr[OF c] have s1: "streamsOf s1 = streamsOf s" "effects s1 = effects s @ createCalls env k"
      and ns: "newStream env k = Some i"
      by simp_all
    have same: "filter (\<lambda>x. \<not> has (streamsOf ?s2) x) rest = filter (\<lambda>x. \<not> has (streamsOf s) x) rest"
      using Cons.prems(2) s1 by (auto simp: has_def intro!: filter_cong)
    from Cons.IH[OF r] Cons.prems(2) same
    obtain new where n: "streamsOf s' = streamsOf ?s2 @ new"
        "map fst new = filter (\<lambda>x. \<not> has (streamsOf s) x) rest"
        "\<forall>kv\<in>set new. newStream env (fst kv) = Some (snd kv)"
      and e: "effects s' = effects ?s2 @ concat (map (createCalls env) (filter (\<lambda>x. \<not> has (streamsOf s) x) rest))"
      by auto
    have "streamsOf s' = streamsOf s @ ((k, i) # new)" using n s1 by simp
    moreover have "map fst ((k, i) # new) = filter (\<lambda>x. \<not> has (streamsOf s) x) (k # rest)"
      using n False by simp
    moreover have "\<forall>kv\<in>set ((k, i) # new). newStream env (fst kv) = Some (snd kv)"
      using n(3) ns by simp
    moreover have "effects s' = effects s @ concat (map (createCalls env) (filter (\<lambda>x. \<not> has (streamsOf s) x) (k # rest)))"
      using e s1 False by simp
    ultimately show ?thesis by blast
  qed
qed

lemma createNewStreams_total:
  "\<forall>k\<in>set subs. has (streamsOf s) k \<or> \<not> createRaises env k \<Longrightarrow>
     fst (createNewStreams env subs s) = Inr ()"
proof (induction subs arbitrary: s)
  case Nil
  then show ?case by simp
next
  case (Cons k rest)
  show ?case
  proof (cases "has (streamsOf s) k")
    case True
    with Cons show ?thesis by simp
  next
    case False
    with Cons.prems have "\<not> createRaises env k" by auto
    from createASR_total[OF this]
    obtain i s1 where c: "createASRStreamForSubscription env k s = (Inr i, s1)"
      by blast
    from createASR_Inr[OF c] have s1: "streamsOf s1 = streamsOf s" by simp
    have "\<forall>k'\<in>set rest. has (streamsOf (s1\<lparr>transcriptionStreams := Some (streamsOf s1 @ [(k, i)])\<rparr>)) k'
        \<or> \<not> createRaises env k'"
      using Cons.prems s1 by (auto simp: has_def)
    from Cons.IH[OF this] c False show ?thesis by simp
  qed
qed

lemma stopIndividualTranscriptionStream_effects:
  "effects (stopIndividualTranscriptionStream env inst key s) = effects s @ stopCalls env (key, inst)"
  by (cases "recognizer inst")
     (simp_all add: stopIndividualTranscriptionStream_def stopRecognizer_def stopCalls_def
        stopRaises_def stopCall_def attempt_def Let_def)

lemma stopUndesiredStreams_result:
  "streamsOf (stopUndesiredStreams env D todo s) =
       filter (\<lambda>kv. fst kv \<in> set D \<or> fst kv \<notin> fst ` set todo) (streamsOf s)
   \<and> effects (stopUndesiredStreams env D todo s) =
       effects s @ concat (map (stopCalls env) (filter (\<lambda>kv. fst kv \<notin> set D) todo))"
proof (induction todo arbitrary: s)
  case Nil
  then show ?case by simp
next
  case (Cons kv todo)
  obtain key inst where kv: "kv = (key, inst)" by (cases kv)
  show ?case
  proof (cases "key \<in> set D")
    case True
    then show ?thesis using Cons.IH[of s] kv by (auto intro!: filter_cong)
  next
    case False
    let ?s1 = "(stopIndividualTranscriptionStream env inst key s)\<lparr>transcriptionStreams := Some (filter (\<lambda>kv. fst kv \<noteq> key) (streamsOf s))\<rparr>"
    have e: "effects ?s1 = effects s @ stopCalls env (key, inst)"
      by (simp add: stopIndividualTranscriptionStream_effects)
    show ?thesis using Cons.IH[of ?s1] kv False e
      by (auto intro!: filter_cong)
  qed
qed


text \<open>
  Claim C5, as stated, fails where the stop call of a stream raises: the source catches
  the exception, skips \<open>recognizer.close()\<close>, and deletes the entry all the same. Here the
  desired set is \<open>transcription:en-US\<close>, the map holds the stream of
  \<open>translation:es-ES-to-en-US\<close>, and \<open>stopContinuousRecognitionAsync\<close> raises on its
  recognizer: the update returns, the entry is gone, and the recognizer has been neither
  stopped nor closed; only the push stream has been closed.
\<close>

theorem updateTranscriptionStreams_stop_raises_counterexample:
  "fst (updateTranscriptionStreams stopRaisesEnv [''transcription:en-US''] streamingSession) = Inr ()
   \<and> map fst (streamsOf (snd (updateTranscriptionStreams stopRaisesEnv [''transcription:en-US'']
                               streamingSession))) = [''transcription:en-US'']
   \<and> effects (snd (updateTranscriptionStreams stopRaisesEnv [''transcription:en-US'']
                     streamingSession))
       = [CreatePushStream ''transcription:en-US'', StartTranscribingAsync ''transcription:en-US'',
          PushStreamClose ''translation:es-ES-to-en-US'']"
  by (simp add: updateTranscriptionStreams_def Let_def newSet_def streamingSession_def
        exampleSession_def stopRaisesEnv_def exampleEnv_def exampleApps_def has_def streamsOf_def
        createASRStreamForSubscription_def isTranslationConfig_def attempt_def perform_def
        stopIndividualTranscriptionStream_def stopRecognizer_def)

text \<open>
  Claim C5, amended. When \<open>updateTranscriptionStreams\<close> returns, the keys of
  \<open>transcriptionStreams\<close> are exactly the desired subscriptions: the streams that
  were desired already are kept as they are, one stream is created (push stream and
  recognizer, started) for each desired key that was not present, in the order of the
  desired set, and the entry of every stream whose key is not desired is deleted, after
  these calls and no others: the stop call that the key selects, unless the recognizer
  lacks that method or the call raises; \<open>recognizer.close()\<close>, if the stop call was made,
  unless it raises; and the close of the push stream, unless it raises. So a stream
  whose stop call goes through is stopped, closed and removed, and one whose stop call
  raises is removed with its recognizer neither stopped nor closed. The update returns
  whenever every desired key that is not yet present is one the SDK parses as a language
  stream and whose push stream and recognizer can be created and started; otherwise
  \<open>createASRStreamForSubscription\<close> raises.
\<close>

theorem updateTranscriptionStreams_keys:
  "((\<forall>k\<in>set L. has (streamsOf s) k \<or> \<not> createRaises env k) \<longrightarrow>
       fst (updateTranscriptionStreams env L s) = Inr ())
   \<and> (updateTranscriptionStreams env L s = (Inr (), s') \<longrightarrow>
         fst ` set (streamsOf s') = set L
       \<and> (\<exists>new. streamsOf s' = filter (\<lambda>kv. fst kv \<in> set L) (streamsOf s) @ new
               \<and> map fst new = filter (\<lambda>k. \<not> has (streamsOf s) k) (newSet L)
               \<and> (\<forall>kv\<in>set new. newStream env (fst kv) = Some (snd kv)))
       \<and> effects s' = effects s
            @ concat (map (createCalls env) (filter (\<lambda>k. \<not> has (streamsOf s) k) (newSet L)))
            @ concat (map (stopCalls env) (filter (\<lambda>kv. fst kv \<notin> set L) (streamsOf s))))
   \<and> (\<not> stopRaises env i k \<and> \<not> throws env (RecognizerClose k) \<and> \<not> throws env (PushStreamClose k) \<longrightarrow>
         stopCalls env (k, i) = [stopCall k, RecognizerClose k, PushStreamClose k])
   \<and> (stopRaises env i k \<longrightarrow>
         stopCall k \<notin> set (stopCalls env (k, i)) \<and> RecognizerClose k \<notin> set (stopCalls env (k, i)))
   \<and> set (stopCalls env (k, i)) \<subseteq> {stopCall k, RecognizerClose k, PushStreamClose k}
   \<and> (getLanguageInfo env k = None \<longrightarrow> createRaises env k)
   \<and> (\<not> createRaises env k \<longrightarrow>
         createCalls env k = [CreatePushStream k, StartContinuousRecognitionAsync k]
       \<or> createCalls env k = [CreatePushStream k, StartTranscribingAsync k])"
proof (intro conjI impI)
  let ?s0 = "case transcriptionStreams s of None \<Rightarrow> s\<lparr>transcriptionStreams := Some []\<rparr> | Some m \<Rightarrow> s"
  have s0: "streamsOf ?s0 = streamsOf s" "effects ?s0 = effects s"
    by (simp_all add: streamsOf_def split: option.splits)
  {
    assume "\<forall>k\<in>set L. has (streamsOf s) k \<or> \<not> createRaises env k"
    then have "\<forall>k\<in>set (newSet L). has (streamsOf ?s0) k \<or> \<not> createRaises env k"
      using s0 by simp
    from createNewStreams_total[OF this]
    obtain s1 where "createNewStreams env (newSet L) ?s0 = (Inr (), s1)"
      by (cases "createNewStreams env (newSet L) ?s0") auto
    then show "fst (updateTranscriptionStreams env L s) = Inr ()"
      by (simp add: updateTranscriptionStreams_def Let_def)
  }
  {
    assume "\<not> stopRaises env i k \<and> \<not> throws env (RecognizerClose k) \<and> \<not> throws env (PushStreamClose k)"
    then show "stopCalls env (k, i) = [stopCall k, RecognizerClose k, PushStreamClose k]"
      by (simp add: stopCalls_def)
  }
  {
    assume r: "stopRaises env i k"
    have ne: "stopCall k \<noteq> PushStreamClose k" "RecognizerClose k \<noteq> PushStreamClose k"
      by (simp_all add: stopCall_def)
    show "stopCall k \<notin> set (stopCalls env (k, i))"
      using r ne by (simp add: stopCalls_def)
    show "RecognizerClose k \<notin> set (stopCalls env (k, i))"
      using r ne by (simp add: stopCalls_def)
  }
  show "set (stopCalls env (k, i)) \<subseteq> {stopCall k, RecognizerClose k, PushStreamClose k}"
    by (auto simp add: stopCalls_def split: if_splits)
  {
    assume "getLanguageInfo env k = None"
    then show "createRaises env k" by (simp add: createRaises_def)
  }
  {
    assume "\<not> createRaises env k"
    then show "createCalls env k = [CreatePushStream k, StartContinuousRecognitionAsync k]
       \<or> createCalls env k = [CreatePushStream k, StartTranscribingAsync k]"
      by (auto simp add: createRaises_def createCalls_def split: option.splits)
  }
  assume u: "updateTranscriptionStreams env L s = (Inr (), s')"
  then obtain s1 where c: "createNewStreams env (newSet L) ?s0 = (Inr (), s1)"
    and s': "s' = stopUndesiredStreams env (newSet L) (streamsOf s1) s1"
    by (auto simp: updateTranscriptionStreams_def Let_def split: prod.splits sum.splits)
  let ?created = "filter (\<lambda>k. \<not> has (streamsOf s) k) (newSet L)"
  from createNewStreams_Inr[OF c] s0
  obtain new where n: "streamsOf s1 = streamsOf s @ new" "map fst new = ?created"
      "\<forall>kv\<in>set new. newStream env (fst kv) = Some (snd kv)"
    and e1: "effects s1 = effects s @ concat (map (createCalls env) ?created)"
    by auto
  have newL: "fst ` set new \<subseteq> set L"
  proof -
    have "fst ` set new = set (map fst new)" by simp
    also have "\<dots> \<subseteq> set L" unfolding n(2) by auto
    finally show ?thesis .
  qed
  have newall: "\<forall>k\<in>set L. has (streamsOf s1) k"
  proof
    fix k assume k: "k \<in> set L"
    show "has (streamsOf s1) k"
    proof (cases "has (streamsOf s) k")
      case True
      then show ?thesis using n(1) by (auto simp: has_def)
    next
      case False
      with k have "k \<in> set ?created" by simp
      then have "k \<in> set (map fst new)" using n(2) by simp
      then show ?thesis using n(1) by (auto simp: has_def)
    qed
  qed
  have st: "streamsOf s' = filter (\<lambda>kv. fst kv \<in> set L) (streamsOf s1)"
    using stopUndesiredStreams_result[of env "newSet L" "streamsOf s1" s1] s'
    by (auto intro!: filter_cong)
  show "fst ` set (streamsOf s') = set L"
    using st newall by (auto simp: has_def)
  have fnew: "filter (\<lambda>kv. fst kv \<in> set L) new = new"
    using newL by (auto intro!: filter_True)
  show "\<exists>new. streamsOf s' = filter (\<lambda>kv. fst kv \<in> set L) (streamsOf s) @ new
               \<and> map fst new = ?created
               \<and> (\<forall>kv\<in>set new. newStream env (fst kv) = Some (snd kv))"
    using st n fnew by auto
  have "filter (\<lambda>kv. fst kv \<notin> set L) new = []"
    using newL by (auto simp: filter_empty_conv)
  then have rem: "filter (\<lambda>kv. fst kv \<notin> set (newSet L)) (streamsOf s1)
       = filter (\<lambda>kv. fst kv \<notin> set L) (streamsOf s)"
    using n(1) by simp
  show "effects s' = effects s @ concat (map (createCalls env) ?created)
            @ concat (map (stopCalls env) (filter (\<lambda>kv. fst kv \<notin> set L) (streamsOf s)))"
    using stopUndesiredStreams_result[of env "newSet L" "streamsOf s1" s1] s' e1 rem by simp
qed

theorem updateTranscriptionStreams_keys_witness:
  "fst (updateTranscriptionStreams exampleEnv [''transcription:en-US''] streamingSession) = Inr ()
   \<and> fst ` set (streamsOf (snd (updateTranscriptionStreams exampleEnv [''transcription:en-US'']
                                streamingSession))) = {''transcription:en-US''}
   \<and> effects (snd (updateTranscriptionStreams exampleEnv [''transcription:en-US''] streamingSession))
       = [CreatePushStream ''transcription:en-US'', StartTranscribingAsync ''transcription:en-US'',
          StopContinuousRecognitionAsync ''translation:es-ES-to-en-US'',
          RecognizerClose ''translation:es-ES-to-en-US'',
          PushStreamClose ''translation:es-ES-to-en-US'']
   \<and> stopRaises stopRaisesEnv spanishToEnglish ''translation:es-ES-to-en-US''
   \<and> RecognizerClose ''translation:es-ES-to-en-US''
       \<notin> set (stopCalls stopRaisesEnv (''translation:es-ES-to-en-US'', spanishToEnglish))"
proof -
  let ?en = "''transcription:en-US''"
  let ?es = "''translation:es-ES-to-en-US''"
  let ?r = "updateTranscriptionStreams exampleEnv [?en] streamingSession"
  note t = updateTranscriptionStreams_keys[of "[?en]" streamingSession
             exampleEnv "snd ?r" spanishToEnglish ?es]
  note t' = updateTranscriptionStreams_keys[of "[?en]" streamingSession
             stopRaisesEnv "snd ?r" spanishToEnglish ?es]
  have tr: "str_includes ?es ''translation''" "\<not> str_includes ?en ''translation''"
    by simp_all
  have li: "getLanguageInfo exampleEnv ?en
      = Some \<lparr>li_type = TRANSCRIPTION, transcribeLanguage = ''en-US'', translateLanguage = None\<rparr>"
    "\<And>c. \<not> throws exampleEnv c"
    by (simp_all add: exampleEnv_def exampleApps_def)
  have h: "\<forall>k\<in>set [?en]. has (streamsOf streamingSession) k \<or> \<not> createRaises exampleEnv k"
    using li by (simp add: createRaises_def)
  with t have a: "fst ?r = Inr ()" by blast
  then have b: "?r = (Inr (), snd ?r)" by (metis prod.collapse)
  have st: "streamsOf streamingSession = [(?es, spanishToEnglish)]" "effects streamingSession = []"
    by (simp_all add: streamingSession_def exampleSession_def spanishToEnglish_def streamsOf_def)
  have nr: "\<not> stopRaises exampleEnv spanishToEnglish ?es"
    using li tr by (simp add: stopRaises_def spanishToEnglish_def)
  have sc: "stopCalls exampleEnv (?es, spanishToEnglish)
      = [StopContinuousRecognitionAsync ?es, RecognizerClose ?es, PushStreamClose ?es]"
    using t nr li tr by (simp add: stopCall_def)
  have cc: "createCalls exampleEnv ?en = [CreatePushStream ?en, StartTranscribingAsync ?en]"
    using li by (simp add: createCalls_def isTranslationConfig_def)
  have r: "stopRaises stopRaisesEnv spanishToEnglish ?es"
    using tr by (simp add: stopRaises_def stopCall_def stopRaisesEnv_def)
  from t b have 1: "fst ` set (streamsOf (snd ?r)) = set [?en]" by blast
  from t b have "effects (snd ?r) = effects streamingSession
            @ concat (map (createCalls exampleEnv)
                 (filter (\<lambda>k. \<not> has (streamsOf streamingSession) k) (newSet [?en])))
            @ concat (map (stopCalls exampleEnv)
                 (filter (\<lambda>kv. fst kv \<notin> set [?en]) (streamsOf streamingSession)))"
    by blast
  then have 2: "effects (snd ?r) = [CreatePushStream ?en, StartTranscribingAsync ?en,
          StopContinuousRecognitionAsync ?es, RecognizerClose ?es, PushStreamClose ?es]"
    using st sc cc by (simp add: newSet_def has_def)
  from t' r have 3: "RecognizerClose ?es \<notin> set (stopCalls stopRaisesEnv (?es, spanishToEnglish))"
    by blast
  from a 1 2 r 3 show ?thesis by simp
qed

section \<open>Starting an app that is already loading or running\<close>

text \<open>
  Claim C8. When the package is already among the loading or the active apps,
  \<open>startAppSession\<close> returns the composite id \<open>sessionId-packageName\<close> and leaves the
  session as it was: no webhook, no boot screen, no timer, no change of membership.
\<close>

theorem startAppSession_already_running:
  "packageName \<in> loadingApps s \<or> packageName \<in> set (activeAppSessions s) \<Longrightarrow>
     startAppSession env packageName s = (Inr (sessionId s @ ''-'' @ packageName), s)"
  by (simp add: startAppSession_def compositeId_def)

theorem startAppSession_already_running_witness:
  "''com.a'' \<in> set (activeAppSessions (exampleSession\<lparr>activeAppSessions := [''com.a'']\<rparr>))
   \<and> startAppSession exampleEnv ''com.a'' (exampleSession\<lparr>activeAppSessions := [''com.a'']\<rparr>)
       = (Inr ''s1-com.a'', exampleSession\<lparr>activeAppSessions := [''com.a'']\<rparr>)"
proof -
  have h: "''com.a'' \<in> loadingApps (exampleSession\<lparr>activeAppSessions := [''com.a'']\<rparr>)
         \<or> ''com.a'' \<in> set (activeAppSessions (exampleSession\<lparr>activeAppSessions := [''com.a'']\<rparr>))"
    by simp
  from startAppSession_already_running[OF h, of exampleEnv] show ?thesis
    by (simp add: exampleSession_def)
qed



section \<open>Stopping and starting: what happens to the fields of the session\<close>

lemma microphoneAfterStop_fields [simp]:
  "activeAppSessions (snd (microphoneAfterStop env s)) = activeAppSessions s"
  "loadingApps (snd (microphoneAfterStop env s)) = loadingApps s"
  "sessionId (snd (microphoneAfterStop env s)) = sessionId s"
  "appConnections (snd (microphoneAfterStop env s)) = appConnections s"
  by (simp_all add: microphoneAfterStop_def split: option.splits)

lemma closeAppConnection_fields [simp]:
  "activeAppSessions (closeAppConnection env p s) = activeAppSessions s"
  "loadingApps (closeAppConnection env p s) = loadingApps s"
  "sessionId (closeAppConnection env p s) = sessionId s"
  by (simp_all add: closeAppConnection_def split: option.splits)

lemma closeAppConnection_others:
  "q \<noteq> p \<Longrightarrow> appConnections (closeAppConnection env p s) q = appConnections s q"
  by (simp add: closeAppConnection_def split: option.splits)


lemma stopAppSession_try_active:
  "activeAppSessions (snd (stopAppSession_try env app p s)) =
     (if throws env (RemoveSubscriptions p) then activeAppSessions s
      else filter (\<lambda>a. a \<noteq> p) (activeAppSessions s))"
  by (simp add: stopAppSession_try_def Let_def case_prod_beta split: sum.splits)

lemma stopAppSession_try_Inr:
  "fst (stopAppSession_try env app p s) = Inr b \<Longrightarrow> \<not> throws env (RemoveSubscriptions p)"
  by (auto simp add: stopAppSession_try_def Let_def case_prod_beta split: sum.splits if_splits)

lemma stopAppSession_try_fields [simp]:
  "loadingApps (snd (stopAppSession_try env app p s)) = loadingApps s"
  "sessionId (snd (stopAppSession_try env app p s)) = sessionId s"
  by (simp_all add: stopAppSession_try_def Let_def case_prod_beta split: sum.splits)

lemma stopAppSession_active:
  "activeAppSessions (snd (stopAppSession env p s)) =
     (case getApp env p of Inr (Some app) \<Rightarrow> filter (\<lambda>a. a \<noteq> p) (activeAppSessions s)
      | _ \<Rightarrow> activeAppSessions s)"
  by (auto simp add: stopAppSession_def case_prod_beta stopAppSession_try_active
           split: sum.splits option.splits dest: stopAppSession_try_Inr)

lemma stopAppSession_fields [simp]:
  "loadingApps (snd (stopAppSession env p s)) = loadingApps s"
  "sessionId (snd (stopAppSession env p s)) = sessionId s"
  by (simp_all add: stopAppSession_def case_prod_beta split: sum.splits option.splits)

lemma stopAppSession_not_found:
  "getApp env p \<noteq> Inr (Some app) \<Longrightarrow> \<forall>a. getApp env p \<noteq> Inr (Some a) \<Longrightarrow>
     snd (stopAppSession env p s) = s \<and> isl (fst (stopAppSession env p s))"
  by (auto simp add: stopAppSession_def split: sum.splits option.splits)


lemma handleStopApp_try_Inr:
  "fst (handleStopApp_try env ws p s) = Inr u \<Longrightarrow>
     p \<notin> set (activeAppSessions (snd (handleStopApp_try env ws p s)))"
  apply (simp add: handleStopApp_try_def case_prod_beta split: sum.splits option.splits if_splits)
  apply (auto simp add: stopAppSession_def case_prod_beta stopAppSession_try_active
           split: sum.splits option.splits if_splits dest: stopAppSession_try_Inr)
  done


lemma userId_fields [simp]:
  "userId (snd (attempt env c s)) = userId s"
  "userId (wsClose w s) = userId s"
  "userId (snd (microphoneAfterStop env s)) = userId s"
  "userId (closeAppConnection env p s) = userId s"
  by (simp_all add: attempt_def wsClose_def microphoneAfterStop_def closeAppConnection_def
        split: option.splits)

lemma stopAppSession_try_more [simp]:
  "userId (snd (stopAppSession_try env app p s)) = userId s"
  "timers (snd (stopAppSession_try env app p s)) = timers s"
  by (simp_all add: stopAppSession_try_def Let_def case_prod_beta microphoneAfterStop_def
        closeAppConnection_def split: sum.splits option.splits)

lemma stopAppSession_try_others:
  "q \<noteq> p \<Longrightarrow> appConnections (snd (stopAppSession_try env app p s)) q = appConnections s q"
  by (simp add: stopAppSession_try_def Let_def case_prod_beta closeAppConnection_others
        split: sum.splits)

lemma stopAppSession_more [simp]:
  "userId (snd (stopAppSession env p s)) = userId s"
  "timers (snd (stopAppSession env p s)) = timers s"
  by (simp_all add: stopAppSession_def case_prod_beta split: sum.splits option.splits)

lemma stopAppSession_others:
  "q \<noteq> p \<Longrightarrow> appConnections (snd (stopAppSession env p s)) q = appConnections s q"
  by (simp add: stopAppSession_def case_prod_beta stopAppSession_try_others
        split: sum.splits option.splits)

lemma later_fields [simp]:
  "throws (later env) = laterThrows env"
  "apps (later env) = laterApps env"
  by (simp_all add: later_def)










lemma stopStandardApps_fields [simp]:
  "loadingApps (stopStandardApps env qs s) = loadingApps s"
  "sessionId (stopStandardApps env qs s) = sessionId s"
  "userId (stopStandardApps env qs s) = userId s"
  "timers (stopStandardApps env qs s) = timers s"
  by (induction qs arbitrary: s; simp)+

lemma stopStandardApps_others:
  "q \<notin> set qs \<Longrightarrow> appConnections (stopStandardApps env qs s) q = appConnections s q"
  by (induction qs arbitrary: s) (auto simp: stopAppSession_others)

lemma isRunningStandardApp_getApp:
  "isRunningStandardApp env q \<Longrightarrow> \<exists>app. getApp env q = Inr (Some app) \<and> tpaType app = STANDARD"
  by (auto simp: isRunningStandardApp_def split: sum.splits option.splits)

lemma stopAppSession_later_active:
  "activeAppSessions (snd (stopAppSession (later env) q s)) =
     (if stopFinds env q then filter (\<lambda>a. a \<noteq> q) (activeAppSessions s) else activeAppSessions s)"
  by (simp add: stopAppSession_active stopFinds_def split: sum.splits option.splits)

lemma stopStandardApps_active:
  "activeAppSessions (stopStandardApps env qs s) =
     filter (\<lambda>a. \<not> (a \<in> set qs \<and> stopFinds env a)) (activeAppSessions s)"
proof (induction qs arbitrary: s)
  case Nil
  then show ?case by simp
next
  case (Cons q qs)
  show ?case
    by (simp add: Cons.IH stopAppSession_later_active) (auto intro!: filter_cong)
qed

lemma startAppSession_pending_active:
  "activeAppSessions (startAppSession_pending env app p s) =
     (if tpaType app = STANDARD
      then filter (\<lambda>a. a = p \<or> \<not> (isRunningStandardApp env a \<and> stopFinds env a))
             (activeAppSessions s)
      else activeAppSessions s)"
  by (auto simp add: startAppSession_pending_def Let_def runningStandardApps_def
        stopStandardApps_active intro!: filter_cong)

lemma startAppSession_pending_fields [simp]:
  "loadingApps (startAppSession_pending env app p s) = insert p (loadingApps s)"
  "sessionId (startAppSession_pending env app p s) = sessionId s"
  "userId (startAppSession_pending env app p s) = userId s"
  "timers (startAppSession_pending env app p s) = timers s"
  by (simp_all add: startAppSession_pending_def Let_def)

lemma startAppSession_pending_others:
  "\<not> isRunningStandardApp env q \<or> q = p \<Longrightarrow>
     appConnections (startAppSession_pending env app p s) q = appConnections s q"
  by (auto simp add: startAppSession_pending_def Let_def runningStandardApps_def
        intro!: stopStandardApps_others)

lemma microphoneAfterStart_fields [simp]:
  "activeAppSessions (snd (microphoneAfterStart env s)) = activeAppSessions s"
  "loadingApps (snd (microphoneAfterStart env s)) = loadingApps s"
  "sessionId (snd (microphoneAfterStart env s)) = sessionId s"
  "appConnections (snd (microphoneAfterStart env s)) = appConnections s"
  "timers (snd (microphoneAfterStart env s)) = timers s"
  by (simp_all add: microphoneAfterStart_def split: option.splits)

lemma setTimeout_fields [simp]:
  "activeAppSessions (setTimeout cb d s) = activeAppSessions s"
  "loadingApps (setTimeout cb d s) = loadingApps s"
  "sessionId (setTimeout cb d s) = sessionId s"
  "appConnections (setTimeout cb d s) = appConnections s"
  "timers (setTimeout cb d s) = timers s @ [(d, cb)]"
  "effects (setTimeout cb d s) = effects s"
  "websocket (setTimeout cb d s) = websocket s"
  "readyState (setTimeout cb d s) = readyState s"
  by (simp_all add: setTimeout_def)

lemma startAppSession_started_fields:
  "activeAppSessions (snd (startAppSession_started env app p s)) =
     (if throws env (DisplayHandleAppStart (app_packageName app)) \<or> p \<in> set (activeAppSessions s)
      then activeAppSessions s else activeAppSessions s @ [p])"
  "loadingApps (snd (startAppSession_started env app p s)) =
     (if throws env (DisplayHandleAppStart (app_packageName app)) then loadingApps s
      else loadingApps s - {p})"
  "timers (snd (startAppSession_started env app p s)) =
     (if throws env (DisplayHandleAppStart (app_packageName app)) then timers s
      else timers s @ [(TPA_SESSION_TIMEOUT_MS, LoadingTimeout p (app_packageName app))])"
  "appConnections (snd (startAppSession_started env app p s)) = appConnections s"
  "sessionId (snd (startAppSession_started env app p s)) = sessionId s"
  by (simp_all add: startAppSession_started_def Let_def case_prod_beta split: sum.splits)

lemma startAppSession_started_Inr:
  "fst (startAppSession_started env app p s) = Inr r \<Longrightarrow>
     \<not> throws env (DisplayHandleAppStart (app_packageName app)) \<and> r = compositeId s p"
  by (auto simp add: startAppSession_started_def Let_def case_prod_beta compositeId_def
        split: sum.splits if_splits)

lemma startAppSession_try_fields:
  "activeAppSessions (snd (startAppSession_try env app p s)) =
     (if throws env (TriggerWebhook (publicUrl app @ ''/webhook'') (sessionRequest env app s p))
         \<or> throws env (DisplayHandleAppStart (app_packageName app)) \<or> p \<in> set (activeAppSessions s)
      then activeAppSessions s else activeAppSessions s @ [p])"
  "loadingApps (snd (startAppSession_try env app p s)) - {p} = loadingApps s - {p}"
  "appConnections (snd (startAppSession_try env app p s)) = appConnections s"
  "sessionId (snd (startAppSession_try env app p s)) = sessionId s"
  by (auto simp add: startAppSession_try_def case_prod_beta startAppSession_started_fields
        split: sum.splits)

lemma startAppSession_try_Inr:
  "fst (startAppSession_try env app p s) = Inr r \<Longrightarrow>
     \<not> throws env (TriggerWebhook (publicUrl app @ ''/webhook'') (sessionRequest env app s p))
   \<and> \<not> throws env (DisplayHandleAppStart (app_packageName app)) \<and> r = compositeId s p
   \<and> loadingApps (snd (startAppSession_try env app p s)) = loadingApps s - {p}
   \<and> timers (snd (startAppSession_try env app p s))
       = timers s @ [(TPA_SESSION_TIMEOUT_MS, LoadingTimeout p (app_packageName app))]"
  by (auto simp add: startAppSession_try_def case_prod_beta startAppSession_started_fields
        compositeId_def
        split: sum.splits if_splits dest!: startAppSession_started_Inr)

lemma sessionRequest_pending [simp]:
  "sessionRequest env app (startAppSession_pending env app p s) p = sessionRequest env app s p"
  by (simp add: sessionRequest_def compositeId_def)

lemma startAppSession_loadingApps [simp]:
  "loadingApps (snd (startAppSession env p s)) = loadingApps s"
proof (cases "p \<in> loadingApps s \<or> p \<in> set (activeAppSessions s)")
  case True
  then show ?thesis by (simp add: startAppSession_def)
next
  case False
  show ?thesis
  proof (cases "getApp env p")
    case (Inl e)
    with False show ?thesis by (simp add: startAppSession_def)
  next
    case (Inr a)
    show ?thesis
    proof (cases a)
      case None
      with Inr False show ?thesis by (simp add: startAppSession_def)
    next
      case (Some app)
      let ?t = "startAppSession_try env app p (startAppSession_pending env app p s)"
      have l: "loadingApps (snd ?t) - {p} = loadingApps s"
        using startAppSession_try_fields(2)[of env app p "startAppSession_pending env app p s"] False
        by simp
      show ?thesis
      proof (cases "fst ?t")
        case (Inl e)
        with Inr Some False l show ?thesis
          by (simp add: startAppSession_def case_prod_beta)
      next
        case (Inr r)
        from startAppSession_try_Inr[OF this] False
        have "loadingApps (snd ?t) = loadingApps s" by simp
        with Inr \<open>getApp env p = Inr a\<close> Some False show ?thesis
          by (simp add: startAppSession_def case_prod_beta)
      qed
    qed
  qed
qed

lemma startAppSession_cases:
  obtains (Already) "p \<in> loadingApps s \<or> p \<in> set (activeAppSessions s)"
      "startAppSession env p s = (Inr (compositeId s p), s)"
  | (Lookup) e where "p \<notin> loadingApps s" "p \<notin> set (activeAppSessions s)"
      "\<forall>a. getApp env p \<noteq> Inr (Some a)" "startAppSession env p s = (Inl e, s)"
  | (Failed) app e where "p \<notin> loadingApps s" "p \<notin> set (activeAppSessions s)"
      "getApp env p = Inr (Some app)"
      "fst (startAppSession_try env app p (startAppSession_pending env app p s)) = Inl e"
      "startAppSession env p s =
         (Inl e, (snd (startAppSession_try env app p (startAppSession_pending env app p s)))
                   \<lparr>loadingApps := loadingApps s\<rparr>)"
  | (Started) app where "p \<notin> loadingApps s" "p \<notin> set (activeAppSessions s)"
      "getApp env p = Inr (Some app)"
      "fst (startAppSession_try env app p (startAppSession_pending env app p s))
         = Inr (compositeId s p)"
      "startAppSession env p s =
         (Inr (compositeId s p), snd (startAppSession_try env app p (startAppSession_pending env app p s)))"
proof (cases "p \<in> loadingApps s \<or> p \<in> set (activeAppSessions s)")
  case True
  then show ?thesis using Already by (simp add: startAppSession_def)
next
  case False
  show ?thesis
  proof (cases "getApp env p")
    case (Inl e)
    with False show ?thesis using Lookup[of e] by (simp add: startAppSession_def)
  next
    case (Inr a)
    show ?thesis
    proof (cases a)
      case None
      with Inr False show ?thesis using Lookup[of "AppNotFound p"] by (simp add: startAppSession_def)
    next
      case (Some app)
      let ?t = "startAppSession_try env app p (startAppSession_pending env app p s)"
      have l: "loadingApps (snd ?t) - {p} = loadingApps s"
        using startAppSession_try_fields(2)[of env app p "startAppSession_pending env app p s"] False
        by simp
      show ?thesis
      proof (cases "fst ?t")
        case (Inl e)
        have "startAppSession env p s = (Inl e, (snd ?t)\<lparr>loadingApps := loadingApps s\<rparr>)"
          using Inl Inr Some False l by (simp add: startAppSession_def case_prod_beta)
        with Inl Inr Some False show ?thesis using Failed[of app e] by simp
      next
        case r: (Inr r)
        from startAppSession_try_Inr[OF r] have "r = compositeId s p"
          by (simp add: compositeId_def)
        moreover have "startAppSession env p s = (Inr r, snd ?t)"
          using r Inr Some False by (simp add: startAppSession_def case_prod_beta)
        ultimately show ?thesis using r Inr Some False Started[of app] by simp
      qed
    qed
  qed
qed

lemma startAppSession_sessionId [simp]:
  "sessionId (snd (startAppSession env p s)) = sessionId s"
  by (cases rule: startAppSession_cases[of p s env]) (simp_all add: startAppSession_try_fields)

lemma startAppSession_active:
  "p \<notin> loadingApps s \<Longrightarrow> p \<notin> set (activeAppSessions s) \<Longrightarrow> getApp env p = Inr (Some app) \<Longrightarrow>
     activeAppSessions (snd (startAppSession env p s)) =
       (if tpaType app = STANDARD
        then filter (\<lambda>a. \<not> (isRunningStandardApp env a \<and> stopFinds env a)) (activeAppSessions s)
        else activeAppSessions s)
       @ (if throws env (TriggerWebhook (publicUrl app @ ''/webhook'') (sessionRequest env app s p))
             \<or> throws env (DisplayHandleAppStart (app_packageName app))
          then [] else [p])"
proof -
  assume a: "p \<notin> loadingApps s" "p \<notin> set (activeAppSessions s)" "getApp env p = Inr (Some app)"
  have f: "filter (\<lambda>a. a = p \<or> \<not> (isRunningStandardApp env a \<and> stopFinds env a)) (activeAppSessions s)
         = filter (\<lambda>a. \<not> (isRunningStandardApp env a \<and> stopFinds env a)) (activeAppSessions s)"
    using a(2) by (auto intro!: filter_cong)
  have n: "p \<notin> set (activeAppSessions (startAppSession_pending env app p s))"
    using a(2) by (simp add: startAppSession_pending_active)
  let ?t = "startAppSession_try env app p (startAppSession_pending env app p s)"
  have t: "activeAppSessions (snd ?t) =
       (if tpaType app = STANDARD
        then filter (\<lambda>a. \<not> (isRunningStandardApp env a \<and> stopFinds env a)) (activeAppSessions s)
        else activeAppSessions s)
       @ (if throws env (TriggerWebhook (publicUrl app @ ''/webhook'') (sessionRequest env app s p))
             \<or> throws env (DisplayHandleAppStart (app_packageName app))
          then [] else [p])"
    using n f by (simp add: startAppSession_try_fields startAppSession_pending_active)
  show ?thesis
    using a t by (cases rule: startAppSession_cases[of p s env]) simp_all
qed

lemma startAppSession_Inr:
  "p \<notin> loadingApps s \<Longrightarrow> p \<notin> set (activeAppSessions s) \<Longrightarrow> getApp env p = Inr (Some app) \<Longrightarrow>
   fst (startAppSession env p s) = Inr r \<Longrightarrow>
     \<not> throws env (TriggerWebhook (publicUrl app @ ''/webhook'') (sessionRequest env app s p))
   \<and> \<not> throws env (DisplayHandleAppStart (app_packageName app))
   \<and> r = compositeId s p
   \<and> timers (snd (startAppSession env p s))
       = timers s @ [(TPA_SESSION_TIMEOUT_MS, LoadingTimeout p (app_packageName app))]"
proof -
  assume a: "p \<notin> loadingApps s" "p \<notin> set (activeAppSessions s)" "getApp env p = Inr (Some app)"
    "fst (startAppSession env p s) = Inr r"
  show ?thesis
  proof (cases rule: startAppSession_cases[of p s env])
    case Already
    with a show ?thesis by simp
  next
    case (Lookup e)
    with a show ?thesis by simp
  next
    case (Failed app' e)
    with a show ?thesis by simp
  next
    case (Started app')
    with a have [simp]: "app' = app" by simp
    from startAppSession_try_Inr[OF Started(4)] Started(5) a(4) show ?thesis by simp
  qed
qed

section \<open>Stopping an app removes it from the active apps\<close>

text \<open>
  Claim C10, as stated, fails: \<open>stopAppSession\<close> looks the app up before its \<open>try\<close>,
  and when no record is found it raises with the package still among the active apps.
\<close>

theorem stopAppSession_app_not_found_counterexample:
  "fst (stopAppSession exampleEnv ''com.gone'' goneSession) = Inl (AppNotFound ''com.gone'')
   \<and> ''com.gone'' \<in> set (activeAppSessions (snd (stopAppSession exampleEnv ''com.gone'' goneSession)))"
  by (simp add: stopAppSession_def getApp_def exampleEnv_def exampleApps_def goneSession_def)


text \<open>
  Claim C10, amended. When the lookup of the app finds its record, the package is absent
  from the active apps when \<open>stopAppSession\<close> returns, normally or with an exception
  raised inside its \<open>try\<close>. When the lookup raises or finds nothing, \<open>stopAppSession\<close>
  raises without touching the session. The \<open>stop_app\<close> handler removes the package from
  the active apps in every case, through the \<open>catch\<close> of its own.
\<close>

theorem stopAppSession_removes_resolved_app:
  "(getApp env p = Inr (Some app) \<longrightarrow>
      p \<notin> set (activeAppSessions (snd (stopAppSession env p s))))
   \<and> ((\<forall>a. getApp env p \<noteq> Inr (Some a)) \<longrightarrow>
        isl (fst (stopAppSession env p s)) \<and> snd (stopAppSession env p s) = s)
   \<and> p \<notin> set (activeAppSessions (handleStopApp env ws p s))"
proof (intro conjI impI)
  assume "getApp env p = Inr (Some app)"
  then show "p \<notin> set (activeAppSessions (snd (stopAppSession env p s)))"
    by (simp add: stopAppSession_active)
next
  assume "\<forall>a. getApp env p \<noteq> Inr (Some a)"
  then show "isl (fst (stopAppSession env p s))" "snd (stopAppSession env p s) = s"
    by (auto simp add: stopAppSession_def split: sum.splits option.splits)
next
  show "p \<notin> set (activeAppSessions (handleStopApp env ws p s))"
  proof (cases "fst (handleStopApp_try env ws p s)")
    case (Inl e)
    then show ?thesis by (simp add: handleStopApp_def case_prod_beta)
  next
    case (Inr u)
    from handleStopApp_try_Inr[OF this] Inr show ?thesis
      by (simp add: handleStopApp_def case_prod_beta)
  qed
qed

theorem stopAppSession_removes_resolved_app_witness:
  "getApp exampleEnv ''com.a'' = Inr (apps exampleEnv ''com.a'')
   \<and> apps exampleEnv ''com.a'' \<noteq> None
   \<and> ''com.a'' \<in> set (activeAppSessions runningSession)
   \<and> ''com.a'' \<notin> set (activeAppSessions (snd (stopAppSession exampleEnv ''com.a'' runningSession)))
   \<and> isl (fst (stopAppSession exampleEnv ''com.gone'' goneSession))
   \<and> ''com.gone'' \<notin> set (activeAppSessions (handleStopApp exampleEnv 0 ''com.gone'' goneSession))"
proof -
  obtain app where a: "apps exampleEnv ''com.a'' = Some app" by (simp add: exampleEnv_def exampleApps_def)
  then have g: "getApp exampleEnv ''com.a'' = Inr (Some app)"
    by (simp add: getApp_def exampleEnv_def exampleApps_def)
  have n: "\<forall>a. getApp exampleEnv ''com.gone'' \<noteq> Inr (Some a)"
    by (simp add: getApp_def exampleEnv_def exampleApps_def)
  from stopAppSession_removes_resolved_app[of exampleEnv "''com.a''" app runningSession 0] g
  have 1: "''com.a'' \<notin> set (activeAppSessions (snd (stopAppSession exampleEnv ''com.a'' runningSession)))"
    by blast
  from stopAppSession_removes_resolved_app[of exampleEnv "''com.gone''" app goneSession 0] n
  have 2: "isl (fst (stopAppSession exampleEnv ''com.gone'' goneSession))"
    "''com.gone'' \<notin> set (activeAppSessions (handleStopApp exampleEnv 0 ''com.gone'' goneSession))"
    by blast+
  from a g 1 2 show ?thesis by (simp add: runningSession_def)
qed


section \<open>Binding a TPA connection\<close>

text \<open>
  Claim C3, as stated, fails: a \<open>tpa_connection_init\<close> with a valid key for a package
  that is no system app and is neither loading nor active is accepted; its connection
  is stored and the acknowledgement sent.
\<close>

theorem handleTpaInit_stray_package_counterexample:
  "''com.stray'' \<notin> set (systemApps exampleEnv)
   \<and> ''com.stray'' \<notin> loadingApps exampleSession
   \<and> ''com.stray'' \<notin> set (activeAppSessions exampleSession)
   \<and> fst (handleTpaInit exampleEnv 7 strayInit [''s1'' \<mapsto> exampleSession]) = Inr Acknowledged
   \<and> (case snd (handleTpaInit exampleEnv 7 strayInit [''s1'' \<mapsto> exampleSession]) ''s1'' of
         None \<Rightarrow> False
       | Some s' \<Rightarrow> appConnections s' ''com.stray'' = Some 7
                   \<and> effects s' = [HandleTpaSessionStart ''com.stray'',
                                    LoggerWarn ''TPA not in loading or active state'',
                                    SetCurrentSessionId ''s1-com.stray'',
                                    WsSend 7 (TpaConnectionAck ''s1-com.stray'' [])])"
  by (simp add: handleTpaInit_def handleTpaInit_session_def tpaInitWarnings_def Let_def
        exampleEnv_def exampleApps_def exampleSession_def strayInit_def attempt_def perform_def)


lemma tpaInitWarnings_effects_eq:
  "effects (tpaInitWarnings env m s) =
     effects s
       @ (if init_packageName m \<notin> set (systemApps env) \<and> \<not> handleTpaSessionStart env m
          then [LoggerWarn ''Unregistered TPA attempting to connect''] else [])
       @ (if init_packageName m \<notin> set (systemApps env)
             \<and> init_packageName m \<notin> loadingApps s
             \<and> init_packageName m \<notin> set (activeAppSessions s)
          then [LoggerWarn ''TPA not in loading or active state''] else [])"
  by (simp add: tpaInitWarnings_def Let_def)

lemma handleTpaInit_session_effects:
  assumes "fst (handleTpaInit_session env ws m s) = Inr Acknowledged"
  shows "effects (snd (handleTpaInit_session env ws m s)) =
         effects s
           @ HandleTpaSessionStart (init_packageName m)
           # (if init_packageName m \<notin> set (systemApps env) \<and> \<not> handleTpaSessionStart env m
              then [LoggerWarn ''Unregistered TPA attempting to connect''] else [])
           @ (if init_packageName m \<notin> set (systemApps env)
                 \<and> init_packageName m \<notin> loadingApps s
                 \<and> init_packageName m \<notin> set (activeAppSessions s)
              then [LoggerWarn ''TPA not in loading or active state''] else [])
           @ [SetCurrentSessionId (init_sessionId m),
              WsSend ws (TpaConnectionAck (init_sessionId m) (userSettings env (init_packageName m)))]"
proof -
  let ?p = "init_packageName m"
  let ?s1 = "perform (HandleTpaSessionStart ?p) s"
  let ?w = "tpaInitWarnings env m ?s1"
  let ?s2 = "perform (SetCurrentSessionId (init_sessionId m))
               (?w\<lparr>appConnections := (appConnections ?w)(?p \<mapsto> ws)\<rparr>)"
  from assms have n: "\<not> throws env (ValidateApiKey ?p (init_apiKey m) (clientIp env ws))"
    "validateApiKey env ?p (init_apiKey m) (clientIp env ws)"
    "\<not> throws env (HandleTpaSessionStart ?p)"
    "\<not> throws env (WsSend ws (TpaConnectionAck (init_sessionId m) (userSettings env ?p)))"
    by (auto simp add: handleTpaInit_session_def Let_def case_prod_beta attempt_def
          split: sum.splits if_splits)
  have e2: "effects ?s2 = effects ?w @ [SetCurrentSessionId (init_sessionId m)]"
    by simp
  have "effects (snd (handleTpaInit_session env ws m s)) =
          effects ?s2 @ [WsSend ws (TpaConnectionAck (init_sessionId m) (userSettings env ?p))]"
    using n by (simp add: handleTpaInit_session_def Let_def attempt_def)
  then show ?thesis
    unfolding e2 tpaInitWarnings_effects_eq by simp
qed

text \<open>
  Claim C3, amended. A bind is accepted (connection stored under the package, ack sent)
  only if the API key validates, and, when no call raises, whenever it validates:
  membership in the loading or active apps is not required of any package. On
  acceptance a package that was loading moves to the active apps; for any other package
  the loading and active apps stay as they were. The calls of an accepted bind are the
  registration of the TPA server, the warnings, the update of the current session id
  and the acknowledgement: a package that is no system app and is neither loading nor
  active gets the warning "TPA not in loading or active state" in the log, and that is
  all that sets it apart. With an invalid key the socket is closed and the session is
  not changed otherwise.
\<close>

theorem handleTpaInit_accepts_valid_key:
  "(fst (handleTpaInit_session env ws m s) = Inr Acknowledged \<longrightarrow>
       effects (snd (handleTpaInit_session env ws m s)) =
         effects s
           @ HandleTpaSessionStart (init_packageName m)
           # (if init_packageName m \<notin> set (systemApps env) \<and> \<not> handleTpaSessionStart env m
              then [LoggerWarn ''Unregistered TPA attempting to connect''] else [])
           @ (if init_packageName m \<notin> set (systemApps env)
                 \<and> init_packageName m \<notin> loadingApps s
                 \<and> init_packageName m \<notin> set (activeAppSessions s)
              then [LoggerWarn ''TPA not in loading or active state''] else [])
           @ [SetCurrentSessionId (init_sessionId m),
              WsSend ws (TpaConnectionAck (init_sessionId m) (userSettings env (init_packageName m)))])
   \<and> (fst (handleTpaInit_session env ws m s) = Inr Acknowledged \<longrightarrow>
       validateApiKey env (init_packageName m) (init_apiKey m) (clientIp env ws)
     \<and> appConnections (snd (handleTpaInit_session env ws m s)) (init_packageName m) = Some ws
     \<and> WsSend ws (TpaConnectionAck (init_sessionId m) (userSettings env (init_packageName m)))
         \<in> set (effects (snd (handleTpaInit_session env ws m s)))
     \<and> (if init_packageName m \<in> loadingApps s
         then loadingApps (snd (handleTpaInit_session env ws m s)) = loadingApps s - {init_packageName m}
            \<and> set (activeAppSessions (snd (handleTpaInit_session env ws m s)))
                = insert (init_packageName m) (set (activeAppSessions s))
         else loadingApps (snd (handleTpaInit_session env ws m s)) = loadingApps s
            \<and> activeAppSessions (snd (handleTpaInit_session env ws m s)) = activeAppSessions s))
   \<and> (\<not> throws env (ValidateApiKey (init_packageName m) (init_apiKey m) (clientIp env ws))
        \<and> \<not> throws env (HandleTpaSessionStart (init_packageName m))
        \<and> \<not> throws env (WsSend ws (TpaConnectionAck (init_sessionId m)
                                      (userSettings env (init_packageName m)))) \<longrightarrow>
        (fst (handleTpaInit_session env ws m s) = Inr Acknowledged)
          = validateApiKey env (init_packageName m) (init_apiKey m) (clientIp env ws))
   \<and> (fst (handleTpaInit_session env ws m s) \<noteq> Inr Acknowledged \<longrightarrow>
        appConnections (snd (handleTpaInit_session env ws m s)) = appConnections s
      \<or> isl (fst (handleTpaInit_session env ws m s)))
   \<and> (fst (handleTpaInit_session env ws m s) = Inr ClosedInvalidApiKey \<longrightarrow>
        \<not> validateApiKey env (init_packageName m) (init_apiKey m) (clientIp env ws)
      \<and> activeAppSessions (snd (handleTpaInit_session env ws m s)) = activeAppSessions s
      \<and> loadingApps (snd (handleTpaInit_session env ws m s)) = loadingApps s
      \<and> effects (snd (handleTpaInit_session env ws m s)) = effects s @ [WsClose ws])"
proof (rule conjI)
  show "fst (handleTpaInit_session env ws m s) = Inr Acknowledged \<longrightarrow>
       effects (snd (handleTpaInit_session env ws m s)) =
         effects s
           @ HandleTpaSessionStart (init_packageName m)
           # (if init_packageName m \<notin> set (systemApps env) \<and> \<not> handleTpaSessionStart env m
              then [LoggerWarn ''Unregistered TPA attempting to connect''] else [])
           @ (if init_packageName m \<notin> set (systemApps env)
                 \<and> init_packageName m \<notin> loadingApps s
                 \<and> init_packageName m \<notin> set (activeAppSessions s)
              then [LoggerWarn ''TPA not in loading or active state''] else [])
           @ [SetCurrentSessionId (init_sessionId m),
              WsSend ws (TpaConnectionAck (init_sessionId m) (userSettings env (init_packageName m)))]"
    by (rule impI, rule handleTpaInit_session_effects)
qed (auto simp add: handleTpaInit_session_def Let_def case_prod_beta attempt_def
        split: sum.splits if_splits)

theorem handleTpaInit_accepts_valid_key_witness:
  "fst (handleTpaInit_session exampleEnv 7 initA loadingSession) = Inr Acknowledged
   \<and> validateApiKey exampleEnv ''com.a'' ''secret'' (clientIp exampleEnv 7)
   \<and> appConnections (snd (handleTpaInit_session exampleEnv 7 initA loadingSession)) ''com.a'' = Some 7
   \<and> ''com.a'' \<notin> loadingApps (snd (handleTpaInit_session exampleEnv 7 initA loadingSession))
   \<and> ''com.a'' \<in> set (activeAppSessions (snd (handleTpaInit_session exampleEnv 7 initA loadingSession)))
   \<and> fst (handleTpaInit_session exampleEnv 7 (initA\<lparr>init_apiKey := ''wrong''\<rparr>) loadingSession)
       = Inr ClosedInvalidApiKey
   \<and> loadingApps (snd (handleTpaInit_session exampleEnv 7 (initA\<lparr>init_apiKey := ''wrong''\<rparr>)
        loadingSession)) = {''com.a''}
   \<and> appConnections (snd (handleTpaInit_session exampleEnv 7 (initA\<lparr>init_apiKey := ''wrong''\<rparr>)
        loadingSession)) = appConnections loadingSession"
proof -
  have nt: "\<And>c. \<not> throws exampleEnv c" by (simp add: exampleEnv_def exampleApps_def)
  have v: "validateApiKey exampleEnv ''com.a'' ''secret'' (clientIp exampleEnv 7)"
    "\<not> validateApiKey exampleEnv ''com.a'' ''wrong'' (clientIp exampleEnv 7)"
    by (simp_all add: exampleEnv_def exampleApps_def)
  have l: "''com.a'' \<in> loadingApps loadingSession" "loadingApps loadingSession = {''com.a''}"
    by (simp_all add: loadingSession_def)
  note t1 = handleTpaInit_accepts_valid_key[of exampleEnv 7 initA loadingSession]
  note t2 = handleTpaInit_accepts_valid_key[of exampleEnv 7 "initA\<lparr>init_apiKey := ''wrong''\<rparr>" loadingSession]
  have a: "fst (handleTpaInit_session exampleEnv 7 initA loadingSession) = Inr Acknowledged"
    using t1 nt v by (simp add: initA_def)
  have b: "fst (handleTpaInit_session exampleEnv 7 (initA\<lparr>init_apiKey := ''wrong''\<rparr>) loadingSession)
       = Inr ClosedInvalidApiKey"
    using nt v by (simp add: handleTpaInit_session_def Let_def initA_def)
  from t1 a l have c: "appConnections (snd (handleTpaInit_session exampleEnv 7 initA loadingSession)) ''com.a'' = Some 7"
     "''com.a'' \<notin> loadingApps (snd (handleTpaInit_session exampleEnv 7 initA loadingSession))"
     "''com.a'' \<in> set (activeAppSessions (snd (handleTpaInit_session exampleEnv 7 initA loadingSession)))"
    by (simp_all add: initA_def)
  from t2 b l have d: "loadingApps (snd (handleTpaInit_session exampleEnv 7 (initA\<lparr>init_apiKey := ''wrong''\<rparr>)
        loadingSession)) = {''com.a''}"
    by simp
  from t2 b have e: "appConnections (snd (handleTpaInit_session exampleEnv 7
        (initA\<lparr>init_apiKey := ''wrong''\<rparr>) loadingSession)) = appConnections loadingSession"
    by simp
  from a b c d e v show ?thesis by simp
qed


section \<open>Close and error on the glasses connection\<close>

text \<open>
  Claim C2, as stated, fails: the \<open>error\<close> handler of the glasses socket calls
  \<open>endSession\<close> at once, sets no timer, and closes the socket.
\<close>

theorem glassesOnError_ends_session_counterexample:
  "effects (glassesOnError 0 exampleSession) = [EndSession, WsClose 0]
   \<and> timers (glassesOnError 0 exampleSession) = []"
  by (simp add: glassesOnError_def exampleSession_def)


text \<open>
  Claim C2, amended. A \<open>close\<close> of the glasses socket never ends the session at once:
  the handler marks the session disconnected and sets a timer of 60 seconds, and the
  callback of that timer ends the session only if the glasses socket of the session is
  then closed or closing. An \<open>error\<close> on the glasses socket ends the session at once
  and then closes the socket, without a grace period.
\<close>

theorem glasses_close_grace_error_ends:
  "effects (glassesOnClose ws s) = effects s @ [MarkSessionDisconnected, PosthogTrackEvent ''disconnected'']
   \<and> timers (glassesOnClose ws s) = timers s @ [(60000, GraceCheck)]
   \<and> (websocket s = Some w \<longrightarrow>
        graceCheck s = (Inr (), if readyState s w = CLOSED \<or> readyState s w = CLOSING
                               then perform EndSession s else s))
   \<and> effects (glassesOnError ws s) = effects s @ [EndSession, WsClose ws]
   \<and> timers (glassesOnError ws s) = timers s"
  by (simp add: glassesOnClose_def glassesOnError_def graceCheck_def setTimeout_def
        RECONNECT_GRACE_PERIOD_MS_def)

theorem glasses_close_grace_error_ends_witness:
  "websocket (glassesOnClose 0 exampleSession) = Some 0
   \<and> graceCheck (glassesOnClose 0 exampleSession)
       = (Inr (), perform EndSession (glassesOnClose 0 exampleSession))
   \<and> graceCheck ((glassesOnClose 0 exampleSession)\<lparr>websocket := Some 1\<rparr>)
       = (Inr (), (glassesOnClose 0 exampleSession)\<lparr>websocket := Some 1\<rparr>)"
proof -
  have w: "websocket (glassesOnClose 0 exampleSession) = Some 0"
    "websocket ((glassesOnClose 0 exampleSession)\<lparr>websocket := Some 1\<rparr>) = Some 1"
    by (simp_all add: glassesOnClose_def setTimeout_def exampleSession_def)
  have r: "readyState (glassesOnClose 0 exampleSession) 0 = CLOSED"
    "readyState ((glassesOnClose 0 exampleSession)\<lparr>websocket := Some 1\<rparr>) 1 = OPEN"
    by (simp_all add: glassesOnClose_def setTimeout_def exampleSession_def)
  from glasses_close_grace_error_ends[of 0 "glassesOnClose 0 exampleSession" 0] w r
  have 1: "graceCheck (glassesOnClose 0 exampleSession)
       = (Inr (), perform EndSession (glassesOnClose 0 exampleSession))" by simp
  from glasses_close_grace_error_ends[of 0 "(glassesOnClose 0 exampleSession)\<lparr>websocket := Some 1\<rparr>" 1] w r
  have 2: "graceCheck ((glassesOnClose 0 exampleSession)\<lparr>websocket := Some 1\<rparr>)
       = (Inr (), (glassesOnClose 0 exampleSession)\<lparr>websocket := Some 1\<rparr>)" by simp
  from w 1 2 show ?thesis by simp
qed



section \<open>What the handlers do to the loading and the active apps\<close>

lemma createASR_fields [simp]:
  "activeAppSessions (snd (createASRStreamForSubscription env k s)) = activeAppSessions s"
  "loadingApps (snd (createASRStreamForSubscription env k s)) = loadingApps s"
  by (simp_all add: createASRStreamForSubscription_def attempt_def split: option.splits)

lemma createNewStreams_fields [simp]:
  "activeAppSessions (snd (createNewStreams env ks s)) = activeAppSessions s"
  "loadingApps (snd (createNewStreams env ks s)) = loadingApps s"
proof (induction ks arbitrary: s)
  case Nil
  { case 1 show ?case by simp }
  { case 2 show ?case by simp }
next
  case (Cons k ks)
  { case 1 show ?case
      using Cons(1) createASR_fields(1)[of env k s]
      by (simp add: case_prod_beta split: sum.splits) }
  { case 2 show ?case
      using Cons(2) createASR_fields(2)[of env k s]
      by (simp add: case_prod_beta split: sum.splits) }
qed

lemma stopIndividual_fields [simp]:
  "activeAppSessions (stopIndividualTranscriptionStream env i k s) = activeAppSessions s"
  "loadingApps (stopIndividualTranscriptionStream env i k s) = loadingApps s"
  by (cases "recognizer i";
      simp add: stopIndividualTranscriptionStream_def stopRecognizer_def attempt_def Let_def)+

lemma stopUndesiredStreams_fields [simp]:
  "activeAppSessions (stopUndesiredStreams env D todo s) = activeAppSessions s"
  "loadingApps (stopUndesiredStreams env D todo s) = loadingApps s"
  by (induction env D todo s rule: stopUndesiredStreams.induct; simp)+

lemma updateTranscriptionStreams_fields [simp]:
  "activeAppSessions (snd (updateTranscriptionStreams env L s)) = activeAppSessions s"
  "loadingApps (snd (updateTranscriptionStreams env L s)) = loadingApps s"
  by (simp_all add: updateTranscriptionStreams_def Let_def case_prod_beta
        split: sum.splits option.splits)

lemma transcription_fields [simp]:
  "activeAppSessions (snd (startTranscription env s)) = activeAppSessions s"
  "loadingApps (snd (startTranscription env s)) = loadingApps s"
  "activeAppSessions (snd (stopTranscription env s)) = activeAppSessions s"
  "loadingApps (snd (stopTranscription env s)) = loadingApps s"
  by (simp_all add: startTranscription_def stopTranscription_def)

lemma handleVad_fields [simp]:
  "activeAppSessions (snd (handleVad env b s)) = activeAppSessions s"
  "loadingApps (snd (handleVad env b s)) = loadingApps s"
  by (simp_all add: handleVad_def case_prod_beta split: sum.splits)

lemma handleGlassesConnectionState_fields [simp]:
  "activeAppSessions (snd (handleGlassesConnectionState env ws st s)) = activeAppSessions s"
  "loadingApps (snd (handleGlassesConnectionState env ws st s)) = loadingApps s"
  by (simp_all add: handleGlassesConnectionState_def case_prod_beta split: sum.splits)

lemma handleStartApp_fields [simp]:
  "activeAppSessions (handleStartApp env ws p s) = activeAppSessions (snd (startAppSession env p s))"
  "loadingApps (handleStartApp env ws p s) = loadingApps s"
  by (simp_all add: handleStartApp_def case_prod_beta split: sum.splits)

lemma handleStopApp_try_loading [simp]:
  "loadingApps (snd (handleStopApp_try env ws p s)) = loadingApps s"
  by (simp add: handleStopApp_try_def case_prod_beta split: sum.splits option.splits)



lemma handleTpaInit_session_loading:
  "fst (handleTpaInit_session env ws m s) = Inr Acknowledged \<Longrightarrow>
   init_packageName m \<in> loadingApps s \<Longrightarrow>
     init_packageName m \<in> set (activeAppSessions (snd (handleTpaInit_session env ws m s)))
   \<and> init_packageName m \<notin> loadingApps (snd (handleTpaInit_session env ws m s))
   \<and> appConnections (snd (handleTpaInit_session env ws m s)) (init_packageName m) = Some ws"
  by (auto simp add: handleTpaInit_session_def Let_def case_prod_beta split: sum.splits if_splits)














lemma startAppSession_appConnections:
  "\<not> isRunningStandardApp env q \<or> q = p \<Longrightarrow>
     appConnections (snd (startAppSession env p s)) q = appConnections s q"
  by (cases rule: startAppSession_cases[of p s env])
     (simp_all add: startAppSession_try_fields startAppSession_pending_others)

lemma getApp_exampleEnv [simp]: "getApp exampleEnv p = Inr (apps exampleEnv p)"
  by (simp add: getApp_def exampleEnv_def exampleApps_def)

lemma throws_exampleEnv [simp]: "\<not> throws exampleEnv c"
  by (simp add: exampleEnv_def exampleApps_def)

lemma startAppSession_succeeds:
  "p \<notin> loadingApps s \<Longrightarrow> p \<notin> set (activeAppSessions s) \<Longrightarrow> getApp env p = Inr (Some app) \<Longrightarrow>
   \<forall>c. \<not> throws env c \<Longrightarrow> fst (startAppSession env p s) = Inr (compositeId s p)"
  by (simp add: startAppSession_def startAppSession_try_def startAppSession_started_def
        microphoneAfterStart_def Let_def case_prod_beta attempt_def compositeId_def
        split: option.splits)


section \<open>From loading to active\<close>

text \<open>
  Claim C1, as stated, fails: \<open>startAppSession\<close> itself moves the package to the active
  apps as soon as the webhook has answered. Here no \<open>tpa_connection_init\<close> has arrived
  and no connection is stored for the package, and it is active.
\<close>

theorem startAppSession_active_without_bind_counterexample:
  "fst (startAppSession exampleEnv ''com.a'' exampleSession) = Inr ''s1-com.a''
   \<and> ''com.a'' \<in> set (activeAppSessions (snd (startAppSession exampleEnv ''com.a'' exampleSession)))
   \<and> ''com.a'' \<notin> loadingApps (snd (startAppSession exampleEnv ''com.a'' exampleSession))
   \<and> appConnections (snd (startAppSession exampleEnv ''com.a'' exampleSession)) ''com.a'' = None"
proof -
  have l: "''com.a'' \<notin> loadingApps exampleSession" "''com.a'' \<notin> set (activeAppSessions exampleSession)"
    by (simp_all add: exampleSession_def)
  obtain app where "apps exampleEnv ''com.a'' = Some app"
    by (simp add: exampleEnv_def exampleApps_def)
  then have a: "getApp exampleEnv ''com.a'' = Inr (Some app)" by simp
  have 1: "fst (startAppSession exampleEnv ''com.a'' exampleSession) = Inr ''s1-com.a''"
    using startAppSession_succeeds[OF l a]
    by (simp add: compositeId_def exampleSession_def)
  have 2: "''com.a'' \<in> set (activeAppSessions (snd (startAppSession exampleEnv ''com.a'' exampleSession)))"
    using startAppSession_active[OF l a] by simp
  have 3: "appConnections (snd (startAppSession exampleEnv ''com.a'' exampleSession)) ''com.a'' = None"
    using startAppSession_appConnections[of exampleEnv "''com.a''" "''com.a''" exampleSession]
    by (simp add: exampleSession_def)
  from 1 2 3 l show ?thesis by simp
qed


text \<open>
  Claim C1, amended. For a package that is neither loading nor active and whose app
  record is found: \<open>startAppSession\<close> stores it in the loading apps, and not in the
  active ones, for the time the session-request webhook is dispatched. When
  \<open>startAppSession\<close> returns, it has itself moved the package from the loading to the
  active apps, without a bind (the stored connections of the package are untouched), and
  has set a timer of 5 seconds. When the webhook or the boot screen raises, it raises
  with the package neither loading nor active. Once the webhook has answered and the
  boot screen is up the package is active and no longer loading, also when a later step
  (the check of the media subscriptions, the microphone message) makes
  \<open>startAppSession\<close> raise. The callback of the timer removes the
  package from the loading apps and tears the boot screen down only if the package is
  still loading, and does nothing otherwise. A \<open>tpa_connection_init\<close> that is
  acknowledged for a package that is loading moves it to the active apps and stores its
  connection.
\<close>

theorem startAppSession_activates_after_webhook:
  "(p \<notin> loadingApps s \<and> p \<notin> set (activeAppSessions s) \<and> getApp env p = Inr (Some app) \<longrightarrow>
      p \<in> loadingApps (startAppSession_pending env app p s)
    \<and> p \<notin> set (activeAppSessions (startAppSession_pending env app p s))
    \<and> (fst (startAppSession env p s) = Inr r \<longrightarrow>
         r = sessionId s @ ''-'' @ p
       \<and> p \<in> set (activeAppSessions (snd (startAppSession env p s)))
       \<and> p \<notin> loadingApps (snd (startAppSession env p s))
       \<and> appConnections (snd (startAppSession env p s)) p = appConnections s p
       \<and> timers (snd (startAppSession env p s))
           = timers s @ [(5000, LoadingTimeout p (app_packageName app))])
    \<and> (throws env (TriggerWebhook (publicUrl app @ ''/webhook'') (sessionRequest env app s p))
        \<or> throws env (DisplayHandleAppStart (app_packageName app)) \<longrightarrow>
         isl (fst (startAppSession env p s))
       \<and> p \<notin> set (activeAppSessions (snd (startAppSession env p s)))
       \<and> p \<notin> loadingApps (snd (startAppSession env p s)))
    \<and> (\<not> throws env (TriggerWebhook (publicUrl app @ ''/webhook'') (sessionRequest env app s p))
        \<and> \<not> throws env (DisplayHandleAppStart (app_packageName app)) \<longrightarrow>
         p \<in> set (activeAppSessions (snd (startAppSession env p s)))
       \<and> p \<notin> loadingApps (snd (startAppSession env p s))
       \<and> appConnections (snd (startAppSession env p s)) p = appConnections s p))
   \<and> loadingTimeout q a t =
        (if q \<in> loadingApps t
         then perform (DisplayHandleAppStop a) (t\<lparr>loadingApps := loadingApps t - {q}\<rparr>) else t)
   \<and> (fst (handleTpaInit_session env ws m t) = Inr Acknowledged
        \<and> init_packageName m \<in> loadingApps t \<longrightarrow>
         init_packageName m \<in> set (activeAppSessions (snd (handleTpaInit_session env ws m t)))
       \<and> init_packageName m \<notin> loadingApps (snd (handleTpaInit_session env ws m t))
       \<and> appConnections (snd (handleTpaInit_session env ws m t)) (init_packageName m) = Some ws)"
proof (intro conjI impI; (elim conjE)?)
  assume a: "p \<notin> loadingApps s" "p \<notin> set (activeAppSessions s)" "getApp env p = Inr (Some app)"
  show "p \<in> loadingApps (startAppSession_pending env app p s)" by simp
  show "p \<notin> set (activeAppSessions (startAppSession_pending env app p s))"
    using a(2) by (simp add: startAppSession_pending_active)
  {
    assume r: "fst (startAppSession env p s) = Inr r"
    note i = startAppSession_Inr[OF a r]
    show "r = sessionId s @ ''-'' @ p" using i by (simp add: compositeId_def)
    show "p \<in> set (activeAppSessions (snd (startAppSession env p s)))"
      using i startAppSession_active[OF a] by simp
    show "p \<notin> loadingApps (snd (startAppSession env p s))" using a(1) by simp
    show "appConnections (snd (startAppSession env p s)) p = appConnections s p"
      by (simp add: startAppSession_appConnections)
    show "timers (snd (startAppSession env p s))
           = timers s @ [(5000, LoadingTimeout p (app_packageName app))]"
      using i by (simp add: TPA_SESSION_TIMEOUT_MS_def)
  }
  {
    assume t: "throws env (TriggerWebhook (publicUrl app @ ''/webhook'') (sessionRequest env app s p))
        \<or> throws env (DisplayHandleAppStart (app_packageName app))"
    show "isl (fst (startAppSession env p s))"
    proof (cases "fst (startAppSession env p s)")
      case (Inl e)
      then show ?thesis by simp
    next
      case (Inr r')
      from startAppSession_Inr[OF a Inr] t show ?thesis by simp
    qed
    show "p \<notin> set (activeAppSessions (snd (startAppSession env p s)))"
      using t a(2) startAppSession_active[OF a] by (auto split: if_splits)
    show "p \<notin> loadingApps (snd (startAppSession env p s))" using a(1) by simp
  }
  {
    assume n: "\<not> throws env (TriggerWebhook (publicUrl app @ ''/webhook'') (sessionRequest env app s p))"
      "\<not> throws env (DisplayHandleAppStart (app_packageName app))"
    show "p \<in> set (activeAppSessions (snd (startAppSession env p s)))"
      using n startAppSession_active[OF a] by simp
    show "p \<notin> loadingApps (snd (startAppSession env p s))" using a(1) by simp
    show "appConnections (snd (startAppSession env p s)) p = appConnections s p"
      by (simp add: startAppSession_appConnections)
  }
next
  show "loadingTimeout q a t =
        (if q \<in> loadingApps t
         then perform (DisplayHandleAppStop a) (t\<lparr>loadingApps := loadingApps t - {q}\<rparr>) else t)"
    by (simp add: loadingTimeout_def)
next
  assume "fst (handleTpaInit_session env ws m t) = Inr Acknowledged" "init_packageName m \<in> loadingApps t"
  from handleTpaInit_session_loading[OF this]
  show "init_packageName m \<in> set (activeAppSessions (snd (handleTpaInit_session env ws m t)))"
    "init_packageName m \<notin> loadingApps (snd (handleTpaInit_session env ws m t))"
    "appConnections (snd (handleTpaInit_session env ws m t)) (init_packageName m) = Some ws"
    by simp_all
qed

theorem startAppSession_activates_after_webhook_witness:
  "''com.a'' \<notin> loadingApps exampleSession \<and> ''com.a'' \<notin> set (activeAppSessions exampleSession)
   \<and> fst (startAppSession exampleEnv ''com.a'' exampleSession) = Inr ''s1-com.a''
   \<and> ''com.a'' \<in> set (activeAppSessions (snd (startAppSession exampleEnv ''com.a'' exampleSession)))
   \<and> timers (snd (startAppSession exampleEnv ''com.a'' exampleSession))
        = [(5000, LoadingTimeout ''com.a'' ''com.a'')]
   \<and> isl (fst (startAppSession webhookDownEnv ''com.a'' exampleSession))
   \<and> ''com.a'' \<notin> set (activeAppSessions (snd (startAppSession webhookDownEnv ''com.a'' exampleSession)))
   \<and> fst (handleTpaInit_session exampleEnv 7 initA loadingSession) = Inr Acknowledged
   \<and> ''com.a'' \<in> loadingApps loadingSession
   \<and> ''com.a'' \<in> set (activeAppSessions (snd (handleTpaInit_session exampleEnv 7 initA loadingSession)))"
proof -
  let ?app = "\<lparr>app_packageName = ''com.a'', publicUrl = ''https://a.example'',
               tpaType = STANDARD, isSystemApp = False\<rparr>"
  have l: "''com.a'' \<notin> loadingApps exampleSession" "''com.a'' \<notin> set (activeAppSessions exampleSession)"
    "timers exampleSession = []" "sessionId exampleSession = ''s1''"
    by (simp_all add: exampleSession_def)
  have a: "getApp exampleEnv ''com.a'' = Inr (Some ?app)"
    by (simp add: getApp_def exampleEnv_def exampleApps_def)
  have a': "getApp webhookDownEnv ''com.a'' = Inr (Some ?app)"
    by (simp add: getApp_def webhookDownEnv_def exampleEnv_def exampleApps_def)
  have ok: "fst (startAppSession exampleEnv ''com.a'' exampleSession) = Inr ''s1-com.a''"
    using startAppSession_succeeds[OF l(1,2) a] l(4) by (simp add: compositeId_def)
  have down: "throws webhookDownEnv (TriggerWebhook (publicUrl ?app @ ''/webhook'')
                 (sessionRequest webhookDownEnv ?app exampleSession ''com.a''))"
    by (simp add: webhookDownEnv_def)
  have b: "fst (handleTpaInit_session exampleEnv 7 initA loadingSession) = Inr Acknowledged"
    by (simp add: handleTpaInit_session_def Let_def initA_def exampleEnv_def exampleApps_def attempt_def)
  have lo: "init_packageName initA \<in> loadingApps loadingSession"
    by (simp add: initA_def loadingSession_def)
  note t1 = startAppSession_activates_after_webhook[of "''com.a''" exampleSession exampleEnv ?app
              "''s1-com.a''" "''com.a''" "''com.a''" loadingSession 7 initA]
  note t2 = startAppSession_activates_after_webhook[of "''com.a''" exampleSession webhookDownEnv ?app
              "''s1-com.a''" "''com.a''" "''com.a''" loadingSession 7 initA]
  from t1 l a ok have 1:
    "''com.a'' \<in> set (activeAppSessions (snd (startAppSession exampleEnv ''com.a'' exampleSession)))"
    "timers (snd (startAppSession exampleEnv ''com.a'' exampleSession))
        = [(5000, LoadingTimeout ''com.a'' ''com.a'')]"
    by simp_all
  from t2 l a' down have 2:
    "isl (fst (startAppSession webhookDownEnv ''com.a'' exampleSession))"
    "''com.a'' \<notin> set (activeAppSessions (snd (startAppSession webhookDownEnv ''com.a'' exampleSession)))"
    by blast+
  from t1 b lo have 3:
    "''com.a'' \<in> set (activeAppSessions (snd (handleTpaInit_session exampleEnv 7 initA loadingSession)))"
    by (simp add: initA_def)
  from l ok 1 2 3 b lo show ?thesis by (simp add: initA_def)
qed


section \<open>At most one STANDARD app is active\<close>


lemma throws_lookupDownEnv [simp]: "throws lookupDownEnv c = (c = GetApp ''com.a'')"
  by (simp add: lookupDownEnv_def)

lemma throws_stopLookupDownEnv [simp]:
  "\<not> throws stopLookupDownEnv c"
  "laterThrows stopLookupDownEnv c = (c = GetApp ''com.a'')"
  by (simp_all add: stopLookupDownEnv_def exampleEnv_def)









section \<open>The microphone debouncer\<close>








section \<open>The VAD gate\<close>

lemma trimRollingBuffer_drop:
  "trimRollingBuffer buf = drop (length buf - LC3_BUFFER_MAX_SIZE) buf"
proof (induction buf rule: trimRollingBuffer.induct)
  case (1 buf)
  show ?case
  proof (cases "length buf > LC3_BUFFER_MAX_SIZE")
    case True
    then have "buf \<noteq> []" by auto
    then obtain x xs where b: "buf = x # xs" by (cases buf) auto
    have "trimRollingBuffer buf = trimRollingBuffer (tl buf)"
      using True by (subst trimRollingBuffer.simps) simp
    also have "\<dots> = drop (length (tl buf) - LC3_BUFFER_MAX_SIZE) (tl buf)"
      using 1[OF True] .
    also have "\<dots> = drop (length buf - LC3_BUFFER_MAX_SIZE) buf"
      using True b by (simp add: Suc_diff_le)
    finally show ?thesis .
  next
    case False
    then show ?thesis by (subst trimRollingBuffer.simps) simp
  qed
qed

lemma fold_sendAudioChunk:
  "fold sendAudioChunk cs g = g\<lparr>serverComms := serverComms g @ map AudioChunk cs\<rparr>"
  by (induction cs arbitrary: g) (simp_all add: sendAudioChunk_def)

lemma sendBufferedAudio_eq:
  "sendBufferedAudio g = g\<lparr>serverComms := serverComms g @ map AudioChunk (lc3RollingBuffer g)\<rparr>"
  by (simp add: sendBufferedAudio_def fold_sendAudioChunk)

lemma wellGated_append:
  "wellGated opened (xs @ ys) = (wellGated opened xs \<and> wellGated (gateAfter opened xs) ys)"
  by (induction opened xs rule: wellGated.induct) auto

lemma gateAfter_append:
  "gateAfter opened (xs @ ys) = gateAfter (gateAfter opened xs) ys"
  by (induction opened xs rule: gateAfter.induct) auto

lemma wellGated_chunks: "wellGated True (map AudioChunk cs)"
  by (induction cs) auto

lemma gateAfter_chunks: "gateAfter opened (map AudioChunk cs) = opened"
  by (induction cs) auto

lemma bufferAndSend_gated: "gated g \<Longrightarrow> gated (bufferAndSend c g)"
  by (auto simp add: gated_def bufferAndSend_def Let_def sendAudioChunk_def
        wellGated_append gateAfter_append)

lemma gateStep_gated: "gated g \<Longrightarrow> ev \<noteq> ChangeBypass True \<Longrightarrow> gated (gateStep ev g)"
proof (cases ev)
  case (IngestAudioChunk c)
  assume "gated g"
  then show ?thesis using IngestAudioChunk bufferAndSend_gated[of g c]
    by (simp add: gateStep_def ingestAudioChunk_def)
next
  case (IngestLC3AudioChunk c)
  assume "gated g"
  then show ?thesis using IngestLC3AudioChunk bufferAndSend_gated[of g c]
    by (simp add: gateStep_def ingestLC3AudioChunk_def)
next
  case (VadListener v)
  assume "gated g"
  then show ?thesis using VadListener
    by (auto simp add: gateStep_def vadListenerIteration_def gated_def sendBufferedAudio_eq
          sendVadStatus_def wellGated_append gateAfter_append wellGated_chunks gateAfter_chunks)
next
  case (ChangeBypass b)
  assume "gated g" "ev \<noteq> ChangeBypass True"
  then show ?thesis using ChangeBypass
    by (simp add: gateStep_def changeBypassVadForDebuggingState_def gated_def)
next
  case VadReady
  assume "gated g"
  then show ?thesis using VadReady by (simp add: gateStep_def gated_def)
qed

lemma gateRun_gated:
  "gated g \<Longrightarrow> ChangeBypass True \<notin> set evs \<Longrightarrow> gated (gateRun evs g)"
  by (induction evs arbitrary: g) (auto simp add: gateStep_gated)

lemma gateStep_same: "isSpeaking g = previousVadState g \<Longrightarrow>
    isSpeaking (gateStep ev g) = previousVadState (gateStep ev g)"
  by (cases ev)
     (auto simp add: gateStep_def ingestAudioChunk_def ingestLC3AudioChunk_def bufferAndSend_def
        Let_def sendAudioChunk_def vadListenerIteration_def changeBypassVadForDebuggingState_def)

lemma gateRun_same: "isSpeaking g = previousVadState g \<Longrightarrow>
    isSpeaking (gateRun evs g) = previousVadState (gateRun evs g)"
  by (induction evs arbitrary: g) (simp_all add: gateStep_same)

text \<open>
  Claim C9. While the gate is silent and the bypass flag is unset, an inbound chunk
  (PCM or LC3) changes nothing but the rolling buffer and nothing is handed to the
  server; an accepted chunk, PCM or LC3, is appended to the buffer, which keeps the last
  22 chunks, and a chunk that is not accepted (a PCM chunk before the VAD is ready or in
  LC3 mode, an LC3 chunk in PCM mode) changes nothing at all. With the bypass flag set an
  accepted chunk is forwarded whatever the gate says. The listener never touches the
  buffer and remembers the verdict it was given.
  When the listener sees the VAD verdict turn to speaking, the server receives
  \<open>vad:true\<close>, then the chunks of the rolling buffer, in this order, and the gate is
  speaking; from then on every accepted chunk is forwarded as it arrives. When the
  verdict turns to silent the server receives \<open>vad:false\<close> and the gate is silent. An
  iteration of the listener without a change sends nothing. In every run from a new
  object the field \<open>isSpeaking\<close> agrees with the listener's last verdict, and, if the
  bypass flag is never set, every chunk the server receives lies between a \<open>vad:true\<close>
  and the next \<open>vad:false\<close>. Events are taken one at a time.
\<close>

theorem vad_gate:
  "(\<not> isSpeaking g \<and> \<not> bypassVadForDebugging g \<longrightarrow>
      ingestAudioChunk c g = g\<lparr>lc3RollingBuffer := lc3RollingBuffer (ingestAudioChunk c g)\<rparr>
    \<and> ingestLC3AudioChunk c g = g\<lparr>lc3RollingBuffer := lc3RollingBuffer (ingestLC3AudioChunk c g)\<rparr>
    \<and> serverComms (ingestAudioChunk c g) = serverComms g
    \<and> serverComms (ingestLC3AudioChunk c g) = serverComms g)
   \<and> (vadInitialized g \<and> sendPcmToBackend g \<longrightarrow>
        lc3RollingBuffer (ingestAudioChunk c g)
          = drop (length (lc3RollingBuffer g) + 1 - 22) (lc3RollingBuffer g @ [c]))
   \<and> (\<not> sendPcmToBackend g \<longrightarrow>
        lc3RollingBuffer (ingestLC3AudioChunk c g)
          = drop (length (lc3RollingBuffer g) + 1 - 22) (lc3RollingBuffer g @ [c]))
   \<and> (\<not> (vadInitialized g \<and> sendPcmToBackend g) \<longrightarrow> ingestAudioChunk c g = g)
   \<and> (sendPcmToBackend g \<longrightarrow> ingestLC3AudioChunk c g = g)
   \<and> (bypassVadForDebugging g \<and> vadInitialized g \<and> sendPcmToBackend g \<longrightarrow>
        serverComms (ingestAudioChunk c g) = serverComms g @ [AudioChunk c])
   \<and> (bypassVadForDebugging g \<and> \<not> sendPcmToBackend g \<longrightarrow>
        serverComms (ingestLC3AudioChunk c g) = serverComms g @ [AudioChunk c])
   \<and> lc3RollingBuffer (vadListenerIteration v g) = lc3RollingBuffer g
   \<and> previousVadState (vadListenerIteration v g) = v
   \<and> (vadInitialized g \<and> sendPcmToBackend g \<longrightarrow>
        ingestAudioChunk c g =
          g\<lparr>lc3RollingBuffer := drop (length (lc3RollingBuffer g) + 1 - 22) (lc3RollingBuffer g @ [c]),
            serverComms := serverComms g
              @ (if bypassVadForDebugging g \<or> isSpeaking g then [AudioChunk c] else [])\<rparr>)
   \<and> (\<not> sendPcmToBackend g \<longrightarrow>
        ingestLC3AudioChunk c g =
          g\<lparr>lc3RollingBuffer := drop (length (lc3RollingBuffer g) + 1 - 22) (lc3RollingBuffer g @ [c]),
            serverComms := serverComms g
              @ (if bypassVadForDebugging g \<or> isSpeaking g then [AudioChunk c] else [])\<rparr>)
   \<and> (v \<noteq> previousVadState g \<longrightarrow>
        vadListenerIteration v g =
          g\<lparr>serverComms := serverComms g
              @ VadStatus v # (if v then map AudioChunk (lc3RollingBuffer g) else []),
            isSpeaking := v, previousVadState := v\<rparr>)
   \<and> gateStep (IngestAudioChunk c) g = ingestAudioChunk c g
   \<and> gateStep (IngestLC3AudioChunk c) g = ingestLC3AudioChunk c g
   \<and> gateStep (VadListener v) g = vadListenerIteration v g
   \<and> gateStep (ChangeBypass b) g = g\<lparr>bypassVadForDebugging := b\<rparr>
   \<and> gateStep VadReady g = g\<lparr>vadInitialized := True\<rparr>
   \<and> (\<not> previousVadState g \<longrightarrow>
        serverComms (vadListenerIteration True g)
          = serverComms g @ VadStatus True # map AudioChunk (lc3RollingBuffer g)
      \<and> isSpeaking (vadListenerIteration True g))
   \<and> (isSpeaking g \<and> vadInitialized g \<and> sendPcmToBackend g \<longrightarrow>
        serverComms (ingestAudioChunk c g) = serverComms g @ [AudioChunk c])
   \<and> (isSpeaking g \<and> \<not> sendPcmToBackend g \<longrightarrow>
        serverComms (ingestLC3AudioChunk c g) = serverComms g @ [AudioChunk c])
   \<and> (previousVadState g \<longrightarrow>
        serverComms (vadListenerIteration False g) = serverComms g @ [VadStatus False]
      \<and> \<not> isSpeaking (vadListenerIteration False g))
   \<and> vadListenerIteration (previousVadState g) g = g
   \<and> isSpeaking (gateRun evs (newSpeechRecAugmentos b))
        = previousVadState (gateRun evs (newSpeechRecAugmentos b))
   \<and> (ChangeBypass True \<notin> set evs \<longrightarrow>
        wellGated False (serverComms (gateRun evs (newSpeechRecAugmentos False))))"
proof (intro conjI impI; (elim conjE)?)
  assume a: "\<not> isSpeaking g" "\<not> bypassVadForDebugging g"
  show "ingestAudioChunk c g = g\<lparr>lc3RollingBuffer := lc3RollingBuffer (ingestAudioChunk c g)\<rparr>"
    using a by (simp add: ingestAudioChunk_def bufferAndSend_def Let_def)
  show "ingestLC3AudioChunk c g = g\<lparr>lc3RollingBuffer := lc3RollingBuffer (ingestLC3AudioChunk c g)\<rparr>"
    using a by (simp add: ingestLC3AudioChunk_def bufferAndSend_def Let_def)
  show "serverComms (ingestAudioChunk c g) = serverComms g"
    using a by (simp add: ingestAudioChunk_def bufferAndSend_def Let_def)
  show "serverComms (ingestLC3AudioChunk c g) = serverComms g"
    using a by (simp add: ingestLC3AudioChunk_def bufferAndSend_def Let_def)
next
  assume "vadInitialized g" "sendPcmToBackend g"
  then show "lc3RollingBuffer (ingestAudioChunk c g)
          = drop (length (lc3RollingBuffer g) + 1 - 22) (lc3RollingBuffer g @ [c])"
    by (simp add: ingestAudioChunk_def bufferAndSend_def Let_def sendAudioChunk_def
          trimRollingBuffer_drop LC3_BUFFER_MAX_SIZE_def)
next
  assume "\<not> sendPcmToBackend g"
  then show "lc3RollingBuffer (ingestLC3AudioChunk c g)
          = drop (length (lc3RollingBuffer g) + 1 - 22) (lc3RollingBuffer g @ [c])"
    by (simp add: ingestLC3AudioChunk_def bufferAndSend_def Let_def sendAudioChunk_def
          trimRollingBuffer_drop LC3_BUFFER_MAX_SIZE_def)
next
  assume "\<not> (vadInitialized g \<and> sendPcmToBackend g)"
  then show "ingestAudioChunk c g = g"
    by (auto simp add: ingestAudioChunk_def)
next
  assume "sendPcmToBackend g"
  then show "ingestLC3AudioChunk c g = g"
    by (simp add: ingestLC3AudioChunk_def)
next
  assume "bypassVadForDebugging g" "vadInitialized g" "sendPcmToBackend g"
  then show "serverComms (ingestAudioChunk c g) = serverComms g @ [AudioChunk c]"
    by (simp add: ingestAudioChunk_def bufferAndSend_def Let_def sendAudioChunk_def)
next
  assume "bypassVadForDebugging g" "\<not> sendPcmToBackend g"
  then show "serverComms (ingestLC3AudioChunk c g) = serverComms g @ [AudioChunk c]"
    by (simp add: ingestLC3AudioChunk_def bufferAndSend_def Let_def sendAudioChunk_def)
next
  show "lc3RollingBuffer (vadListenerIteration v g) = lc3RollingBuffer g"
    by (simp add: vadListenerIteration_def sendBufferedAudio_eq sendVadStatus_def)
next
  show "previousVadState (vadListenerIteration v g) = v"
    by (auto simp add: vadListenerIteration_def sendBufferedAudio_eq sendVadStatus_def)
next
  assume "vadInitialized g" "sendPcmToBackend g"
  then show "ingestAudioChunk c g =
          g\<lparr>lc3RollingBuffer := drop (length (lc3RollingBuffer g) + 1 - 22) (lc3RollingBuffer g @ [c]),
            serverComms := serverComms g
              @ (if bypassVadForDebugging g \<or> isSpeaking g then [AudioChunk c] else [])\<rparr>"
    by (simp add: ingestAudioChunk_def bufferAndSend_def Let_def sendAudioChunk_def
          trimRollingBuffer_drop LC3_BUFFER_MAX_SIZE_def)
next
  assume "\<not> sendPcmToBackend g"
  then show "ingestLC3AudioChunk c g =
          g\<lparr>lc3RollingBuffer := drop (length (lc3RollingBuffer g) + 1 - 22) (lc3RollingBuffer g @ [c]),
            serverComms := serverComms g
              @ (if bypassVadForDebugging g \<or> isSpeaking g then [AudioChunk c] else [])\<rparr>"
    by (simp add: ingestLC3AudioChunk_def bufferAndSend_def Let_def sendAudioChunk_def
          trimRollingBuffer_drop LC3_BUFFER_MAX_SIZE_def)
next
  assume "v \<noteq> previousVadState g"
  then show "vadListenerIteration v g =
          g\<lparr>serverComms := serverComms g
              @ VadStatus v # (if v then map AudioChunk (lc3RollingBuffer g) else []),
            isSpeaking := v, previousVadState := v\<rparr>"
    by (simp add: vadListenerIteration_def sendBufferedAudio_eq sendVadStatus_def)
next
  show "gateStep (IngestAudioChunk c) g = ingestAudioChunk c g"
    "gateStep (IngestLC3AudioChunk c) g = ingestLC3AudioChunk c g"
    "gateStep (VadListener v) g = vadListenerIteration v g"
    "gateStep (ChangeBypass b) g = g\<lparr>bypassVadForDebugging := b\<rparr>"
    "gateStep VadReady g = g\<lparr>vadInitialized := True\<rparr>"
    by (simp_all add: gateStep_def changeBypassVadForDebuggingState_def)
next
  assume a: "\<not> previousVadState g"
  show "serverComms (vadListenerIteration True g)
          = serverComms g @ VadStatus True # map AudioChunk (lc3RollingBuffer g)"
    using a by (simp add: vadListenerIteration_def sendBufferedAudio_eq sendVadStatus_def)
  show "isSpeaking (vadListenerIteration True g)"
    using a by (simp add: vadListenerIteration_def)
next
  assume "isSpeaking g" "vadInitialized g" "sendPcmToBackend g"
  then show "serverComms (ingestAudioChunk c g) = serverComms g @ [AudioChunk c]"
    by (simp add: ingestAudioChunk_def bufferAndSend_def Let_def sendAudioChunk_def)
next
  assume "isSpeaking g" "\<not> sendPcmToBackend g"
  then show "serverComms (ingestLC3AudioChunk c g) = serverComms g @ [AudioChunk c]"
    by (simp add: ingestLC3AudioChunk_def bufferAndSend_def Let_def sendAudioChunk_def)
next
  assume a: "previousVadState g"
  show "serverComms (vadListenerIteration False g) = serverComms g @ [VadStatus False]"
    using a by (simp add: vadListenerIteration_def sendVadStatus_def)
  show "\<not> isSpeaking (vadListenerIteration False g)"
    using a by (simp add: vadListenerIteration_def)
next
  show "vadListenerIteration (previousVadState g) g = g"
    by (simp add: vadListenerIteration_def)
next
  show "isSpeaking (gateRun evs (newSpeechRecAugmentos b))
        = previousVadState (gateRun evs (newSpeechRecAugmentos b))"
    by (rule gateRun_same) (simp add: newSpeechRecAugmentos_def)
next
  assume "ChangeBypass True \<notin> set evs"
  moreover have "gated (newSpeechRecAugmentos False)"
    by (simp add: gated_def newSpeechRecAugmentos_def)
  ultimately have "gated (gateRun evs (newSpeechRecAugmentos False))"
    by (intro gateRun_gated)
  then show "wellGated False (serverComms (gateRun evs (newSpeechRecAugmentos False)))"
    by (simp add: gated_def)
qed

theorem vad_gate_witness:
  "\<not> isSpeaking silentGate \<and> \<not> bypassVadForDebugging silentGate
   \<and> serverComms (ingestAudioChunk [20] silentGate) = []
   \<and> lc3RollingBuffer (ingestAudioChunk [20] silentGate) = [[10], [20]]
   \<and> serverComms (vadListenerIteration True silentGate) = [VadStatus True, AudioChunk [10]]
   \<and> serverComms (ingestAudioChunk [20] speakingGate) = [AudioChunk [20]]
   \<and> serverComms (ingestLC3AudioChunk [20] (speakingGate\<lparr>sendPcmToBackend := False\<rparr>))
        = [AudioChunk [20]]
   \<and> serverComms (vadListenerIteration False speakingGate) = [VadStatus False]
   \<and> lc3RollingBuffer (ingestLC3AudioChunk [20] (silentGate\<lparr>sendPcmToBackend := False\<rparr>))
        = [[10], [20]]
   \<and> serverComms (vadListenerIteration True
          (ingestLC3AudioChunk [20] (silentGate\<lparr>sendPcmToBackend := False\<rparr>)))
        = [VadStatus True, AudioChunk [10], AudioChunk [20]]
   \<and> wellGated False (serverComms (gateRun [VadReady, IngestAudioChunk [10], IngestAudioChunk [20],
                         VadListener True, IngestAudioChunk [30], VadListener False, IngestAudioChunk [40]]
                  (newSpeechRecAugmentos False)))
   \<and> serverComms (gateRun [VadReady, IngestAudioChunk [10], IngestAudioChunk [20], VadListener True,
                         IngestAudioChunk [30], VadListener False, IngestAudioChunk [40]]
                  (newSpeechRecAugmentos False))
     = [VadStatus True, AudioChunk [10], AudioChunk [20], AudioChunk [30], VadStatus False]"
proof -
  let ?evs = "[VadReady, IngestAudioChunk [10], IngestAudioChunk [20], VadListener True,
               IngestAudioChunk [30], VadListener False, IngestAudioChunk [40]]"
  let ?sg = "speakingGate\<lparr>sendPcmToBackend := False\<rparr>"
  let ?lc3 = "silentGate\<lparr>sendPcmToBackend := False\<rparr>"
  have n: "ChangeBypass True \<notin> set ?evs" by simp
  have g: "\<not> isSpeaking silentGate" "\<not> bypassVadForDebugging silentGate"
    "vadInitialized silentGate" "sendPcmToBackend silentGate" "\<not> previousVadState silentGate"
    "serverComms silentGate = []" "lc3RollingBuffer silentGate = [[10]]"
    by (simp_all add: silentGate_def newSpeechRecAugmentos_def)
  have h: "isSpeaking speakingGate" "vadInitialized speakingGate" "sendPcmToBackend speakingGate"
    "previousVadState speakingGate" "serverComms speakingGate = []"
    by (simp_all add: speakingGate_def silentGate_def newSpeechRecAugmentos_def)
  have h': "isSpeaking ?sg" "\<not> sendPcmToBackend ?sg" "serverComms ?sg = []"
    using h by simp_all
  have g': "\<not> isSpeaking ?lc3" "\<not> bypassVadForDebugging ?lc3" "\<not> sendPcmToBackend ?lc3"
    "serverComms ?lc3 = []" "lc3RollingBuffer ?lc3 = [[10]]"
    using g by simp_all
  note t0 = vad_gate[where g=silentGate and c="[20]" and evs="?evs" and b=False and v=True]
  note t1 = vad_gate[where g=silentGate and c="[20]" and evs="[]" and b=False and v=True]
  note t2 = vad_gate[where g=speakingGate and c="[20]" and evs="[]" and b=False and v=False]
  note t3 = vad_gate[where g="?sg" and c="[20]" and evs="[]" and b=False and v=False]
  note t4 = vad_gate[where g="?lc3" and c="[20]" and evs="[]" and b=False and v=True]
  note t5 = vad_gate[where g="ingestLC3AudioChunk [20] ?lc3" and c="[20]" and evs="[]" and b=False
                       and v=True]
  from t0 n have 1: "wellGated False (serverComms (gateRun ?evs (newSpeechRecAugmentos False)))"
    by blast
  from t1 g(1,2) have a1: "serverComms (ingestAudioChunk [20] silentGate) = serverComms silentGate"
    by blast
  from t1 g(3,4) have a2: "lc3RollingBuffer (ingestAudioChunk [20] silentGate)
      = drop (length (lc3RollingBuffer silentGate) + 1 - 22) (lc3RollingBuffer silentGate @ [[20]])"
    by blast
  from t1 g(5) have a3: "serverComms (vadListenerIteration True silentGate)
      = serverComms silentGate @ VadStatus True # map AudioChunk (lc3RollingBuffer silentGate)"
    by blast
  from a1 a2 a3 g have 2: "serverComms (ingestAudioChunk [20] silentGate) = []"
    "lc3RollingBuffer (ingestAudioChunk [20] silentGate) = [[10], [20]]"
    "serverComms (vadListenerIteration True silentGate) = [VadStatus True, AudioChunk [10]]"
    by simp_all
  from t2 h(1,2,3) have b1: "serverComms (ingestAudioChunk [20] speakingGate)
      = serverComms speakingGate @ [AudioChunk [20]]"
    by blast
  from t2 h(4) have b2: "serverComms (vadListenerIteration False speakingGate)
      = serverComms speakingGate @ [VadStatus False]"
    by blast
  from b1 b2 h have 3: "serverComms (ingestAudioChunk [20] speakingGate) = [AudioChunk [20]]"
    "serverComms (vadListenerIteration False speakingGate) = [VadStatus False]"
    by simp_all
  from t3 h'(1,2) have "serverComms (ingestLC3AudioChunk [20] ?sg) = serverComms ?sg @ [AudioChunk [20]]"
    by blast
  with h'(3) have 4: "serverComms (ingestLC3AudioChunk [20] ?sg) = [AudioChunk [20]]"
    by simp
  from t4 g'(3) have d1: "lc3RollingBuffer (ingestLC3AudioChunk [20] ?lc3)
      = drop (length (lc3RollingBuffer ?lc3) + 1 - 22) (lc3RollingBuffer ?lc3 @ [[20]])"
    by blast
  from t4 g'(1,2) have d2: "serverComms (ingestLC3AudioChunk [20] ?lc3) = serverComms ?lc3"
    by blast
  from d1 d2 g' have 6: "lc3RollingBuffer (ingestLC3AudioChunk [20] ?lc3) = [[10], [20]]"
    "serverComms (ingestLC3AudioChunk [20] ?lc3) = []"
    by simp_all
  have 7: "\<not> previousVadState (ingestLC3AudioChunk [20] ?lc3)"
    by (simp add: ingestLC3AudioChunk_def bufferAndSend_def Let_def sendAudioChunk_def
          silentGate_def newSpeechRecAugmentos_def)
  from t5 7 have "serverComms (vadListenerIteration True (ingestLC3AudioChunk [20] ?lc3))
      = serverComms (ingestLC3AudioChunk [20] ?lc3)
        @ VadStatus True # map AudioChunk (lc3RollingBuffer (ingestLC3AudioChunk [20] ?lc3))"
    by blast
  with 6 have 8: "serverComms (vadListenerIteration True (ingestLC3AudioChunk [20] ?lc3))
        = [VadStatus True, AudioChunk [10], AudioChunk [20]]"
    by simp
  have 5: "serverComms (gateRun ?evs (newSpeechRecAugmentos False))
     = [VadStatus True, AudioChunk [10], AudioChunk [20], AudioChunk [30], VadStatus False]"
    by (simp add: gateStep_def newSpeechRecAugmentos_def ingestAudioChunk_def bufferAndSend_def
          Let_def sendAudioChunk_def vadListenerIteration_def sendBufferedAudio_eq
          sendVadStatus_def trimRollingBuffer_drop LC3_BUFFER_MAX_SIZE_def)
  from g 1 2 3 4 5 6 8 show ?thesis by simp
qed


section \<open>The transcript buffer\<close>

text \<open>
  Claim C7 against the code: the handlers of a translation stream call
  \<open>updateTranscriptHistory\<close> without the check for \<open>en-US\<close> that the handlers of a
  transcription stream make. An interim result of the stream
  \<open>translation:es-ES-to-en-US\<close> puts a segment with the Spanish text into the buffer of
  a session whose buffer was empty.
\<close>

theorem translation_interim_enters_transcript:
  "li_type (handlerLanguageInfo spanishToEnglish) = TRANSLATION
   \<and> transcribeLanguage (handlerLanguageInfo spanishToEnglish) = ''es-ES''
   \<and> transcript exampleSession = []
   \<and> transcript (onInterim spanishToEnglish 1000 spanishInterim exampleSession)
       = [\<lparr>resultId = ''r1'', speakerId = None, seg_text = ''hola'', timestamp = 1000,
           isFinal = False\<rparr>]"
  by (simp add: onInterim_def recognizing_def spanishToEnglish_def spanishInterim_def
        updateTranscriptHistory_def broadcastTranscriptionResult_def perform_def Let_def
        exampleSession_def)


text \<open>
  The rest of the claim holds of the code: what an insert does to the buffer, that
  nothing older than 30 minutes is left when it returns, and that a transcription
  stream of another language than \<open>en-US\<close> leaves the buffer alone.
\<close>

lemma updateTranscriptHistory_pruned:
  "seg \<in> set (transcript (updateTranscriptHistory currentTime result final s)) \<Longrightarrow>
     currentTime - 30 * 60 * 1000 \<le> timestamp seg"
  by (simp add: updateTranscriptHistory_def Let_def)

lemma updateTranscriptHistory_insert:
  "transcript (updateTranscriptHistory currentTime result final s) =
     filter (\<lambda>seg. currentTime - 1800000 \<le> timestamp seg)
       ((if transcript s \<noteq> [] \<and> \<not> isFinal (last (transcript s))
         then butlast (transcript s) else transcript s)
        @ [\<lparr>resultId = ev_resultId result, speakerId = ev_speakerId result,
            seg_text = ev_text result, timestamp = currentTime, isFinal = final\<rparr>])"
proof (cases "transcript s" rule: rev_cases)
  case Nil
  then show ?thesis by (simp add: updateTranscriptHistory_def Let_def)
next
  case (snoc xs x)
  then show ?thesis by (simp add: updateTranscriptHistory_def Let_def nth_append list_update_append)
qed

lemma transcription_only_english:
  "transcribeLanguage languageInfo \<noteq> ''en-US'' \<Longrightarrow>
     transcript (transcribing languageInfo currentTime result s) = transcript s
   \<and> transcript (transcribed languageInfo currentTime result s) = transcript s"
  by (simp add: transcribing_def transcribed_def broadcastTranscriptionResult_def perform_def)


end
